theory Spec2Isabelle
  imports Complex_Main "HOL-Library.Multiset"
begin

section \<open>Python string primitives used by the scorer\<close>

text \<open>
  The text of a history cell is a list of characters with code points below 256.
  \<open>is_space\<close> is Python's \<open>str.isspace\<close> on that range (the separators of
  \<open>str.split()\<close>), \<open>is_digit\<close> the decimal digits of that range.
\<close>

definition is_digit :: "char \<Rightarrow> bool" where
  "is_digit c = (48 \<le> (of_char c :: nat) \<and> (of_char c :: nat) \<le> 57)"

definition is_space :: "char \<Rightarrow> bool" where
  "is_space c = ((of_char c :: nat) \<in> {9, 10, 11, 12, 13, 28, 29, 30, 31, 32, 133, 160})"

text \<open>The maximal runs of characters that are not separators, in order. The second
  argument holds the current run, reversed.\<close>

fun split_runs :: "(char \<Rightarrow> bool) \<Rightarrow> string \<Rightarrow> string \<Rightarrow> string list" where
  "split_runs sep cur [] = (if cur = [] then [] else [rev cur])"
| "split_runs sep cur (c # cs) =
     (if sep c
      then (if cur = [] then split_runs sep [] cs else rev cur # split_runs sep [] cs)
      else split_runs sep (c # cur) cs)"

text \<open>\<open>s.split()\<close>: the runs between white space.\<close>

definition py_split :: "string \<Rightarrow> string list" where
  "py_split s = split_runs is_space [] s"

text \<open>\<open>s[-2:]\<close>: the last two characters (the whole string when it is shorter).\<close>

definition last2 :: "string \<Rightarrow> string" where
  "last2 s = drop (length s - 2) s"

definition digit_val :: "char \<Rightarrow> int" where
  "digit_val c = int (of_char c) - 48"

definition nat_literal :: "string \<Rightarrow> int option" where
  "nat_literal ds =
     (if ds \<noteq> [] \<and> list_all is_digit ds
      then Some (foldl (\<lambda>a c. 10 * a + digit_val c) 0 ds) else None)"

text \<open>
  \<open>int(x)\<close> on a string without white space: an optional sign and decimal digits,
  \<open>None\<close> where Python raises ValueError. Digit grouping with underscores needs three
  characters at least and the scorer passes two, so it is left out.
\<close>

definition py_int :: "string \<Rightarrow> int option" where
  "py_int x =
     (case x of
        [] \<Rightarrow> None
      | c # cs \<Rightarrow>
          if c = CHR ''+'' then nat_literal cs
          else if c = CHR ''-'' then map_option uminus (nat_literal cs)
          else nat_literal x)"

section \<open>The history table and the draws extracted from it\<close>

datatype exn = ValueError | ConnectionError | HTTPError nat | RuntimeError

text \<open>
  A calendar day is its ordinal (days since 1970-01-01): the value of
  \<open>pd.to_datetime(r["date"]).normalize()\<close>. A row of the history frame is a day and
  the text of its \<open>all_prizes\<close> cell.
\<close>

type_synonym day = int
type_synonym history = "(day \<times> string) list"
type_synonym draws = "(day \<times> int) list"

text \<open>The inner loop of \<open>build_features\<close>: a token of length two or more gives the
  row \<open>(date, int(s[-2:]))\<close>; \<open>int\<close> raises ValueError on a token it cannot read.\<close>

fun token_rows :: "day \<Rightarrow> string list \<Rightarrow> exn + draws" where
  "token_rows d [] = Inr []"
| "token_rows d (s # ss) =
     (if 2 \<le> length s
      then (case py_int (last2 s) of
              None \<Rightarrow> Inl ValueError
            | Some n \<Rightarrow>
                (case token_rows d ss of
                   Inl e \<Rightarrow> Inl e
                 | Inr rs \<Rightarrow> Inr ((d, n) # rs)))
      else token_rows d ss)"

fun hist_rows :: "history \<Rightarrow> exn + draws" where
  "hist_rows [] = Inr []"
| "hist_rows ((d, p) # df) =
     (case token_rows d (py_split p) of
        Inl e \<Rightarrow> Inl e
      | Inr r \<Rightarrow>
          (case hist_rows df of
             Inl e \<Rightarrow> Inl e
           | Inr rs \<Rightarrow> Inr (r @ rs)))"

section \<open>Series of the scorer\<close>

text \<open>A float is a real number or NaN (\<open>None\<close>); arithmetic is exact on the numbers
  and NaN is contagious.\<close>

type_synonym pyfloat = "real option"

definition fsub :: "pyfloat \<Rightarrow> pyfloat \<Rightarrow> pyfloat" where
  "fsub a b = (case (a, b) of (Some x, Some y) \<Rightarrow> Some (x - y) | _ \<Rightarrow> None)"

definition fdiv :: "pyfloat \<Rightarrow> pyfloat \<Rightarrow> pyfloat" where
  "fdiv a b = (case (a, b) of (Some x, Some y) \<Rightarrow> Some (x / y) | _ \<Rightarrow> None)"

definition fadd :: "pyfloat \<Rightarrow> pyfloat \<Rightarrow> pyfloat" where
  "fadd a b = (case (a, b) of (Some x, Some y) \<Rightarrow> Some (x + y) | _ \<Rightarrow> None)"

definition fmul :: "pyfloat \<Rightarrow> pyfloat \<Rightarrow> pyfloat" where
  "fmul a b = (case (a, b) of (Some x, Some y) \<Rightarrow> Some (x * y) | _ \<Rightarrow> None)"

text \<open>The values of a series that are not NaN (pandas reductions skip NaN).\<close>

definition dropna :: "'a option list \<Rightarrow> 'a list" where
  "dropna xs = List.map_filter (\<lambda>x. x) xs"

definition pd_mean :: "pyfloat list \<Rightarrow> pyfloat" where
  "pd_mean xs =
     (let v = dropna xs
      in if v = [] then None else Some (sum_list v / real (length v)))"

text \<open>\<open>Series.std(ddof=1)\<close>: the sample standard deviation; NaN below two values.\<close>

definition pd_std :: "pyfloat list \<Rightarrow> pyfloat" where
  "pd_std xs =
     (let v = dropna xs; m = sum_list v / real (length v)
      in if length v \<le> 1 then None
         else Some (sqrt (sum_list (map (\<lambda>x. (x - m)\<^sup>2) v) / real (length v - 1))))"

text \<open>\<open>Series.max()\<close> of the recency column.\<close>

definition pd_max :: "int option list \<Rightarrow> int option" where
  "pd_max xs = (case dropna xs of [] \<Rightarrow> None | v # vs \<Rightarrow> Some (fold max vs v))"

definition fillna :: "'a option list \<Rightarrow> 'a option \<Rightarrow> 'a option list" where
  "fillna xs v = map (\<lambda>x. case x of None \<Rightarrow> v | Some y \<Rightarrow> Some y) xs"

text \<open>\<open>d or 1.0\<close>: zero is false, every other float (NaN too) is true.\<close>

definition or_one :: "pyfloat \<Rightarrow> pyfloat" where
  "or_one d = (case d of None \<Rightarrow> None | Some s \<Rightarrow> if s = 0 then Some 1 else Some s)"

text \<open>\<open>(x - x.mean()) / (x.std(ddof=1) or 1.0)\<close>\<close>

definition standardize :: "pyfloat list \<Rightarrow> pyfloat list" where
  "standardize xs = map (\<lambda>x. fdiv (fsub x (pd_mean xs)) (or_one (pd_std xs))) xs"

text \<open>\<open>hist["date"].max()\<close> of a frame whose first row has date \<open>d\<close>.\<close>

definition max_date :: "day \<Rightarrow> draws \<Rightarrow> day" where
  "max_date d rs = fold max (map fst rs) d"

definition freq_30d_of :: "draws \<Rightarrow> day \<Rightarrow> int \<Rightarrow> int" where
  "freq_30d_of h window_start n =
     int (length (filter (\<lambda>(d, v). window_start \<le> d \<and> v = n) h))"

definition last_seen_of :: "draws \<Rightarrow> int \<Rightarrow> day option" where
  "last_seen_of h n =
     (case filter (\<lambda>(d, v). v = n) h of
        [] \<Rightarrow> None
      | r # rs \<Rightarrow> Some (max_date (fst r) rs))"

definition recency_of :: "draws \<Rightarrow> day \<Rightarrow> int \<Rightarrow> int option" where
  "recency_of h latest n = map_option (\<lambda>d. latest - d) (last_seen_of h n)"

text \<open>The columns over \<open>range(100)\<close>, in index order.\<close>

definition range_100 :: "int list" where
  "range_100 = map int [0..<100]"

definition freq_col :: "draws \<Rightarrow> day \<Rightarrow> int list" where
  "freq_col h latest = map (freq_30d_of h (latest - 29)) range_100"

definition recency_col :: "draws \<Rightarrow> day \<Rightarrow> int option list" where
  "recency_col h latest = map (recency_of h latest) range_100"

text \<open>\<open>fw = out["freq_30d"].astype(float)\<close>\<close>

definition fw_col :: "draws \<Rightarrow> day \<Rightarrow> pyfloat list" where
  "fw_col h latest = map (\<lambda>f. Some (real_of_int f)) (freq_col h latest)"

definition z_hot :: "draws \<Rightarrow> day \<Rightarrow> pyfloat list" where
  "z_hot h latest = standardize (fw_col h latest)"

text \<open>\<open>rc = out["recency_days"].fillna(out["recency_days"].max())\<close>\<close>

definition rc_col :: "draws \<Rightarrow> day \<Rightarrow> pyfloat list" where
  "rc_col h latest =
     map (map_option real_of_int)
       (fillna (recency_col h latest) (pd_max (recency_col h latest)))"

definition z_cold :: "draws \<Rightarrow> day \<Rightarrow> pyfloat list" where
  "z_cold h latest = standardize (rc_col h latest)"

definition score_col :: "draws \<Rightarrow> day \<Rightarrow> pyfloat list" where
  "score_col h latest =
     map2 (\<lambda>zh zc. fadd (fmul (Some (6 / 10)) zh) (fmul (Some (4 / 10)) zc))
       (z_hot h latest) (z_cold h latest)"

section \<open>The feature table\<close>

record feature_row =
  num :: int
  freq_30d :: int
  recency_days :: "int option"
  score :: pyfloat

text \<open>The frame \<open>out\<close> before it is sorted: row \<open>i\<close> holds the value \<open>i\<close>.\<close>

definition feature_rows :: "draws \<Rightarrow> day \<Rightarrow> feature_row list" where
  "feature_rows h latest =
     map (\<lambda>i. \<lparr>num = int i,
               freq_30d = freq_col h latest ! i,
               recency_days = recency_col h latest ! i,
               score = score_col h latest ! i\<rparr>) [0..<100]"

text \<open>The frame returned on an empty \<open>hist\<close>.\<close>

definition empty_table :: "feature_row list" where
  "empty_table =
     map (\<lambda>i. \<lparr>num = int i, freq_30d = 0, recency_days = None, score = Some 0\<rparr>) [0..<100]"

text \<open>
  \<open>sort_values(["score", "num"], ascending=[False, True])\<close>: a row comes before
  another when its score is larger, or the scores are equal and its value is not larger;
  rows whose score is NaN come last (\<open>na_position\<close> is "last"), by value.
\<close>

definition row_le :: "feature_row \<Rightarrow> feature_row \<Rightarrow> bool" where
  "row_le a b =
     (case (score a, score b) of
        (Some x, Some y) \<Rightarrow> y < x \<or> (x = y \<and> num a \<le> num b)
      | (Some x, None) \<Rightarrow> True
      | (None, Some y) \<Rightarrow> False
      | (None, None) \<Rightarrow> num a \<le> num b)"

fun insert_row :: "feature_row \<Rightarrow> feature_row list \<Rightarrow> feature_row list" where
  "insert_row r [] = [r]"
| "insert_row r (x # xs) = (if row_le r x then r # x # xs else x # insert_row r xs)"

fun sort_values :: "feature_row list \<Rightarrow> feature_row list" where
  "sort_values [] = []"
| "sort_values (r # rs) = insert_row r (sort_values rs)"

text \<open>\<open>build_features(df, window_days)\<close>: the table and \<open>latest_day\<close>
  (\<open>None\<close> on an empty \<open>hist\<close>). The window is the constant 29 of the source;
  \<open>window_days\<close> is not read.\<close>

definition build_features :: "history \<Rightarrow> int \<Rightarrow> exn + (feature_row list \<times> day option)" where
  "build_features df window_days =
     (case hist_rows df of
        Inl e \<Rightarrow> Inl e
      | Inr h \<Rightarrow>
          (case h of
             [] \<Rightarrow> Inr (empty_table, None)
           | r # rs \<Rightarrow>
               (let latest_day = max_date (fst r) rs
                in Inr (sort_values (feature_rows h latest_day), Some latest_day))))"

section \<open>The fetcher\<close>

text \<open>
  \<open>\w\<close> of a text pattern on code points below 256: the characters for which
  \<open>str.isalnum\<close> holds, and the underscore.
\<close>

definition is_word :: "char \<Rightarrow> bool" where
  "is_word c =
     (let k = (of_char c :: nat)
      in (48 \<le> k \<and> k \<le> 57) \<or> (65 \<le> k \<and> k \<le> 90) \<or> k = 95 \<or> (97 \<le> k \<and> k \<le> 122)
         \<or> k \<in> {170, 178, 179, 181, 185, 186, 188, 189, 190}
         \<or> (192 \<le> k \<and> k \<le> 214) \<or> (216 \<le> k \<and> k \<le> 246) \<or> 248 \<le> k)"

text \<open>
  \<open>re.findall(r"\b\d{2,5}\b", html)\<close>. A match starts and ends at a word boundary and
  holds digits only, so it is a whole word (a maximal run of \<open>\w\<close> characters) made of
  two to five digits; a longer run of digits, or one that touches a letter, gives no match.
\<close>

definition findall_nums :: "string \<Rightarrow> string list" where
  "findall_nums html =
     filter (\<lambda>w. 2 \<le> length w \<and> length w \<le> 5 \<and> list_all is_digit w)
       (split_runs (\<lambda>c. \<not> is_word c) [] html)"

text \<open>\<open>" ".join(nums)\<close>\<close>

fun join_sp :: "string list \<Rightarrow> string" where
  "join_sp [] = []"
| "join_sp [x] = x"
| "join_sp (x # y # zs) = x @ '' '' @ join_sp (y # zs)"

text \<open>\<open>str(n)\<close> of a natural number and of an integer.\<close>

fun str_nat :: "nat \<Rightarrow> string" where
  "str_nat n =
     (if n < 10 then [char_of (48 + n)]
      else str_nat (n div 10) @ [char_of (48 + n mod 10)])"

declare str_nat.simps [simp del]

definition str_int :: "int \<Rightarrow> string" where
  "str_int i = (if i < 0 then CHR ''-'' # str_nat (nat (- i)) else str_nat (nat i))"

text \<open>\<open>s.zfill(2)\<close> of the text of an integer, which is also \<open>f"{i:02d}"\<close>: a text of
  one character is a single digit and gets a zero in front.\<close>

definition zfill2 :: "string \<Rightarrow> string" where
  "zfill2 s = replicate (2 - length s) CHR ''0'' @ s"

definition fmt_02d :: "int \<Rightarrow> string" where
  "fmt_02d i = zfill2 (str_int i)"

text \<open>The list \<open>[str(int(x[-2:])).zfill(2) for x in nums]\<close>.\<close>

fun last2_list :: "string list \<Rightarrow> exn + string list" where
  "last2_list [] = Inr []"
| "last2_list (x # xs) =
     (case py_int (last2 x) of
        None \<Rightarrow> Inl ValueError
      | Some n \<Rightarrow>
          (case last2_list xs of
             Inl e \<Rightarrow> Inl e
           | Inr ys \<Rightarrow> Inr (zfill2 (str_int n) # ys)))"

text \<open>The civil date (year, month, day of month) of a day ordinal, and
  \<open>strftime('%Y-%m-%d')\<close>; the year of a timestamp and of today has four digits.\<close>

definition civil_from_days :: "day \<Rightarrow> int \<times> int \<times> int" where
  "civil_from_days z0 =
     (let z = z0 + 719468;
          era = z div 146097;
          doe = z - era * 146097;
          yoe = (doe - doe div 1460 + doe div 36524 - doe div 146096) div 365;
          y = yoe + era * 400;
          doy = doe - (365 * yoe + yoe div 4 - yoe div 100);
          mp = (5 * doy + 2) div 153;
          d = doy - (153 * mp + 2) div 5 + 1;
          m = (if mp < 10 then mp + 3 else mp - 9)
      in (if m \<le> 2 then y + 1 else y, m, d))"

definition strftime :: "day \<Rightarrow> string" where
  "strftime z =
     (case civil_from_days z of
        (y, m, d) \<Rightarrow> str_int y @ ''-'' @ fmt_02d m @ ''-'' @ fmt_02d d)"

text \<open>What the request gave: no response (a network error or the timeout), or a status
  code and the text of the page.\<close>

datatype http_reply = NoReply | Reply nat string

text \<open>
  \<open>fetch_latest_from_ketqua()\<close>, as a function of the reply and of today's day.
  \<open>raise_for_status\<close> raises on the status codes 400 to 599. The parse of the page by
  BeautifulSoup is not read afterwards. The first component of the result is the text
  \<open>datetime.now().strftime("%Y-%m-%d")\<close>.
\<close>

definition fetch_latest_from_ketqua ::
    "http_reply \<Rightarrow> day \<Rightarrow> exn + (string \<times> string \<times> string list)" where
  "fetch_latest_from_ketqua r now =
     (case r of
        NoReply \<Rightarrow> Inl ConnectionError
      | Reply status html \<Rightarrow>
          if 400 \<le> status \<and> status < 600 then Inl (HTTPError status)
          else (let nums = findall_nums html
                in if nums = [] then Inl RuntimeError
                   else (case last2_list nums of
                           Inl e \<Rightarrow> Inl e
                         | Inr l2 \<Rightarrow> Inr (strftime now, join_sp nums, l2))))"

section \<open>The renderer\<close>

text \<open>
  A page is the list of the bytes written to the file (UTF-8). \<open>f"{x:.3f}"\<close> rounds the
  number to three decimals, ties to even; NaN prints as \<open>nan\<close>.
\<close>

definition round_half_even :: "real \<Rightarrow> int" where
  "round_half_even y =
     (let f = \<lfloor>y\<rfloor>; r = y - of_int f
      in if r < 1 / 2 then f else if 1 / 2 < r then f + 1 else if even f then f else f + 1)"

definition fmt_3f :: "real \<Rightarrow> string" where
  "fmt_3f x =
     (let k = nat (round_half_even (\<bar>x\<bar> * 1000)); frac = str_nat (k mod 1000)
      in (if x < 0 then ''-'' else []) @ str_nat (k div 1000) @ ''.''
         @ replicate (3 - length frac) CHR ''0'' @ frac)"

definition fmt_score :: "pyfloat \<Rightarrow> string" where
  "fmt_score s = (case s of None \<Rightarrow> ''nan'' | Some x \<Rightarrow> fmt_3f x)"

text \<open>The date of the page: empty when \<open>latest_day\<close> is None, its
  \<open>strftime('%Y-%m-%d')\<close> otherwise.\<close>

definition date_text :: "day option \<Rightarrow> string" where
  "date_text latest_day = (case latest_day of None \<Rightarrow> [] | Some z \<Rightarrow> strftime z)"

definition disclaimer :: string where
  "disclaimer =
     [CHR 0xE2, CHR 0x9A, CHR 0xA0, CHR 0xEF, CHR 0xB8, CHR 0x8F] @ '' Mi''
     @ [CHR 0xE1, CHR 0xBB, CHR 0x85] @ ''n tr'' @ [CHR 0xE1, CHR 0xBB, CHR 0xAB] @ '' tr''
     @ [CHR 0xC3, CHR 0xA1] @ ''ch nhi'' @ [CHR 0xE1, CHR 0xBB, CHR 0x87] @ ''m: ''
     @ [CHR 0xC4, CHR 0x90, CHR 0xC3, CHR 0xA2] @ ''y ch'' @ [CHR 0xE1, CHR 0xBB, CHR 0x89]
     @ '' l'' @ [CHR 0xC3, CHR 0xA0] @ '' c'' @ [CHR 0xC3, CHR 0xB4] @ ''ng c''
     @ [CHR 0xE1, CHR 0xBB, CHR 0xA5] @ '' th'' @ [CHR 0xE1, CHR 0xBB, CHR 0x91] @ ''ng k''
     @ [CHR 0xC3, CHR 0xAA] @ '' m'' @ [CHR 0xC3, CHR 0xB4] @ '' t''
     @ [CHR 0xE1, CHR 0xBA, CHR 0xA3] @ '' d'' @ [CHR 0xE1, CHR 0xBB, CHR 0xB1] @ ''a tr''
     @ [CHR 0xC3, CHR 0xAA] @ ''n d'' @ [CHR 0xE1, CHR 0xBB, CHR 0xAF] @ '' li''
     @ [CHR 0xE1, CHR 0xBB, CHR 0x87] @ ''u qu'' @ [CHR 0xC3, CHR 0xA1] @ '' kh''
     @ [CHR 0xE1, CHR 0xBB, CHR 0xA9] @ ''. Kh'' @ [CHR 0xC3, CHR 0xB4] @ ''ng ''
     @ [CHR 0xC4, CHR 0x91, CHR 0xE1, CHR 0xBA, CHR 0xA3] @ ''m b''
     @ [CHR 0xE1, CHR 0xBA, CHR 0xA3] @ ''o k'' @ [CHR 0xE1, CHR 0xBA, CHR 0xBF] @ ''t qu''
     @ [CHR 0xE1, CHR 0xBA, CHR 0xA3] @ '', n'' @ [CHR 0xE1, CHR 0xBB, CHR 0x99]
     @ ''i dung ch'' @ [CHR 0xE1, CHR 0xBB, CHR 0x89] @ '' mang t'' @ [CHR 0xC3, CHR 0xAD]
     @ ''nh ch'' @ [CHR 0xE1, CHR 0xBA, CHR 0xA5] @ ''t tham kh''
     @ [CHR 0xE1, CHR 0xBA, CHR 0xA3] @ ''o. Vui l'' @ [CHR 0xC3, CHR 0xB2] @ ''ng ch''
     @ [CHR 0xC6, CHR 0xA1] @ ''i c'' @ [CHR 0xC3, CHR 0xB3] @ '' tr'' @ [CHR 0xC3, CHR 0xA1]
     @ ''ch nhi'' @ [CHR 0xE1, CHR 0xBB, CHR 0x87] @ ''m.''"

text \<open>The text of each page before the date.\<close>

definition full_head :: string where
  \<open>full_head =
     ''<!doctype html>\<newline>'' @ ''<html lang="vi"><head>\<newline>''
     @ ''<meta charset="utf-8"/><meta name="viewport" content="width=d''
     @ ''evice-width, initial-scale=1"/>\<newline>'' @ ''<title>XSMB Top-3 d''
     @ [CHR 0xE1, CHR 0xBB, CHR 0xB1] @ '' '' @ [CHR 0xC4, CHR 0x91] @ ''o''
     @ [CHR 0xC3, CHR 0xA1] @ ''n</title>\<newline>'' @ ''</head><body>\<newline>''
     @ ''<h1>Top-3 g'' @ [CHR 0xE1, CHR 0xBB, CHR 0xA3] @ ''i '' @ [CHR 0xC3, CHR 0xBD]
     @ ''</h1>\<newline>'' @ ''<p>D'' @ [CHR 0xE1, CHR 0xBB, CHR 0xAF] @ '' li''
     @ [CHR 0xE1, CHR 0xBB, CHR 0x87] @ ''u ''
     @ [CHR 0xC4, CHR 0x91, CHR 0xE1, CHR 0xBA, CHR 0xBF] @ ''n: ''\<close>

definition compact_head :: string where
  \<open>compact_head =
     ''<!doctype html>\<newline>'' @ ''<html lang="vi"><head>\<newline>''
     @ ''<meta charset="utf-8"/><meta name="viewport" content="width=d''
     @ ''evice-width, initial-scale=1"/>\<newline>''
     @ ''<title>XSMB Top-3 (Compact)</title>\<newline>'' @ ''</head><body>\<newline>''
     @ ''<h1>Top-3 g'' @ [CHR 0xE1, CHR 0xBB, CHR 0xA3] @ ''i '' @ [CHR 0xC3, CHR 0xBD]
     @ ''</h1>\<newline>'' @ ''<p>D'' @ [CHR 0xE1, CHR 0xBB, CHR 0xAF] @ '' li''
     @ [CHR 0xE1, CHR 0xBB, CHR 0x87] @ ''u ''
     @ [CHR 0xC4, CHR 0x91, CHR 0xE1, CHR 0xBA, CHR 0xBF] @ ''n: ''\<close>

text \<open>One item of the list of \<open>index.html\<close>: the value on two digits, an en dash, the
  score, the count of the window, the recency (empty when it is NaN) and the word for
  days.\<close>

definition li_full :: "feature_row \<Rightarrow> string" where
  "li_full row =
     ''<li>'' @ fmt_02d (num row) @ '' '' @ [CHR 0xE2, CHR 0x80, CHR 0x93] @ '' score ''
     @ fmt_score (score row) @ '', 30d: '' @ str_int (freq_30d row) @ '', recency: ''
     @ (case recency_days row of None \<Rightarrow> [] | Some k \<Rightarrow> str_int k)
     @ '' ng'' @ [CHR 0xC3, CHR 0xA0] @ ''y</li>''"

definition li_compact :: "feature_row \<Rightarrow> string" where
  "li_compact row =
     ''<li>'' @ fmt_02d (num row) @ '' '' @ [CHR 0xE2, CHR 0x80, CHR 0x93] @ '' score ''
     @ fmt_score (score row) @ ''</li>''"

text \<open>\<open>rebuild_html(feature_df, latest_day, topk)\<close>: the text written to
  \<open>index.html\<close>.\<close>

definition rebuild_html :: "feature_row list \<Rightarrow> day option \<Rightarrow> nat \<Rightarrow> string" where
  \<open>rebuild_html feature_df latest_day topk =
     full_head
     @ date_text latest_day
     @ ''</p>\<newline>'' @ ''<ul>\<newline>''
     @ concat (map li_full (take topk feature_df))
     @ ''\<newline>'' @ ''</ul>\<newline>'' @ ''<p style="color:red">''
     @ disclaimer
     @ ''</p>\<newline>'' @ ''</body></html>''\<close>

text \<open>\<open>rebuild_html_compact(feature_df, latest_day, topk)\<close>: the text written to
  \<open>index_top3_only.html\<close>.\<close>

definition rebuild_html_compact :: "feature_row list \<Rightarrow> day option \<Rightarrow> nat \<Rightarrow> string" where
  \<open>rebuild_html_compact feature_df latest_day topk =
     compact_head
     @ date_text latest_day
     @ ''</p>\<newline>'' @ ''<ol>\<newline>''
     @ concat (map li_compact (take topk feature_df))
     @ ''\<newline>'' @ ''</ol>\<newline>'' @ ''<p style="color:red">''
     @ disclaimer
     @ ''</p>\<newline>'' @ ''</body></html>''\<close>

section \<open>The orchestrator\<close>

text \<open>
  The frame \<open>df\<close> that \<open>main\<close> holds: a row is the text of its date cell, as
  \<open>df["date"].astype(str)\<close> gives it, and the text of its \<open>all_prizes\<close> cell, as
  \<open>str(r["all_prizes"])\<close> gives it.
\<close>

type_synonym frame = "(string \<times> string) list"

text \<open>
  \<open>pd.to_datetime\<close> is a parameter: the day it reads in a date cell, or the exception
  it raises. The loop of \<open>build_features\<close> reads the date of a row before the tokens of
  that row; \<open>frame_rows\<close> gives the rows before the first date that is refused, each
  with its day, and the exception of that date.
\<close>

fun frame_rows :: "(string \<Rightarrow> exn + day) \<Rightarrow> frame \<Rightarrow> history \<times> exn option" where
  "frame_rows to_datetime [] = ([], None)"
| "frame_rows to_datetime ((d, p) # df) =
     (case to_datetime d of
        Inl e \<Rightarrow> ([], Some e)
      | Inr z \<Rightarrow>
          (case frame_rows to_datetime df of
             (rows, bad) \<Rightarrow> ((z, p) # rows, bad)))"

text \<open>
  \<open>build_features(df, window_days)\<close> on the frame: the exception of a token in the
  rows that come before a refused date, or else the exception of that date, or else the
  table of the rows.
\<close>

definition features_of_frame ::
    "(string \<Rightarrow> exn + day) \<Rightarrow> frame \<Rightarrow> int \<Rightarrow> exn + (feature_row list \<times> day option)" where
  "features_of_frame to_datetime df window_days =
     (case frame_rows to_datetime df of
        (rows, bad) \<Rightarrow>
          (case build_features rows window_days of
             Inl e \<Rightarrow> Inl e
           | Inr res \<Rightarrow> (case bad of Some e \<Rightarrow> Inl e | None \<Rightarrow> Inr res)))"

text \<open>
  The files and the output of a run. The history file holds some content (of a type
  left open) or does not exist; \<open>trace\<close> lists the effects of the runs so far, oldest
  first.
\<close>

datatype log_line = Added string | FetchFailed exn

datatype event = ReadCsv | WriteCsv | Print log_line | WriteIndex | WriteCompact

record 'f world =
  csv_file :: "'f option"
  index_html :: "string option"
  index_top3_only_html :: "string option"
  trace :: "event list"

text \<open>
  \<open>pd.read_csv\<close> and \<open>DataFrame.to_csv\<close> are parameters: the frame read from a
  content of the file (with the types pandas infers for its columns), and the content
  written for a frame. A run starts from the frame read from the file, or from the empty
  frame when there is no file.
\<close>

definition load_history :: "('f \<Rightarrow> frame) \<Rightarrow> 'f world \<Rightarrow> frame" where
  "load_history read_csv w = (case csv_file w of None \<Rightarrow> [] | Some f \<Rightarrow> read_csv f)"

text \<open>
  \<open>main(force)\<close>, as a function of the reply to the request, today's day and the files.
  It returns the files after the run and the exception that ended the run, if one did.
  The test of the \<open>try\<close> block compares the text of today's date with the texts of the
  date column. Every exception of the \<open>try\<close> block is caught and printed; one raised
  by \<open>build_features\<close> is not.
\<close>

definition main ::
    "('f \<Rightarrow> frame) \<Rightarrow> (frame \<Rightarrow> 'f) \<Rightarrow> (string \<Rightarrow> exn + day) \<Rightarrow>
     bool \<Rightarrow> http_reply \<Rightarrow> day \<Rightarrow> 'f world \<Rightarrow> 'f world \<times> exn option" where
  "main read_csv to_csv to_datetime force r now w =
     (let df = load_history read_csv w;
          w1 = (if csv_file w = None then w else w\<lparr>trace := trace w @ [ReadCsv]\<rparr>);
          (df2, w2) =
            (case fetch_latest_from_ketqua r now of
               Inl e \<Rightarrow> (df, w1\<lparr>trace := trace w1 @ [Print (FetchFailed e)]\<rparr>)
             | Inr (today, all_prizes, l2) \<Rightarrow>
                 if force \<or> today \<notin> set (map fst df)
                 then (df @ [(today, all_prizes)],
                       w1\<lparr>csv_file := Some (to_csv (df @ [(today, all_prizes)])),
                          trace := trace w1 @ [WriteCsv, Print (Added today)]\<rparr>)
                 else (df, w1))
      in case features_of_frame to_datetime df2 30 of
           Inl e \<Rightarrow> (w2, Some e)
         | Inr (features, latest_day) \<Rightarrow>
             (w2\<lparr>index_html := Some (rebuild_html features latest_day 3),
                 index_top3_only_html := Some (rebuild_html_compact features latest_day 3),
                 trace := trace w2 @ [WriteIndex, WriteCompact]\<rparr>,
              None))"

text \<open>
  In the examples \<open>pd.to_datetime\<close> is the reader below, of the texts year-month-day
  with a year of four digits from 1678 to 2261, and the file holds the frame itself; the
  theorems hold for every reader and every file format.
\<close>

definition days_from_civil :: "int \<Rightarrow> int \<Rightarrow> int \<Rightarrow> day" where
  "days_from_civil y0 m d =
     (let y = (if m \<le> 2 then y0 - 1 else y0);
          era = y div 400;
          yoe = y - era * 400;
          doy = (153 * (if 2 < m then m - 3 else m + 9) + 2) div 5 + d - 1;
          doe = yoe * 365 + yoe div 4 - yoe div 100 + doy
      in era * 146097 + doe - 719468)"

definition days_in_month :: "int \<Rightarrow> int \<Rightarrow> int" where
  "days_in_month y m =
     (if m = 2 then (if y mod 4 = 0 \<and> (y mod 100 \<noteq> 0 \<or> y mod 400 = 0) then 29 else 28)
      else if m \<in> {4, 6, 9, 11} then 30 else 31)"

definition read_ymd :: "string \<Rightarrow> exn + day" where
  "read_ymd s =
     (case split_runs (\<lambda>c. c = CHR ''-'') [] s of
        [ys, ms, ds] \<Rightarrow>
          (case (nat_literal ys, nat_literal ms, nat_literal ds) of
             (Some y, Some m, Some d) \<Rightarrow>
               if length ys = 4 \<and> length ms \<le> 2 \<and> length ds \<le> 2
                  \<and> 1678 \<le> y \<and> y \<le> 2261 \<and> 1 \<le> m \<and> m \<le> 12
                  \<and> 1 \<le> d \<and> d \<le> days_in_month y m
               then Inr (days_from_civil y m d) else Inl ValueError
           | _ \<Rightarrow> Inl ValueError)
      | _ \<Rightarrow> Inl ValueError)"

section \<open>Properties of the feature table\<close>

lemma mset_insert_row: "mset (insert_row r xs) = add_mset r (mset xs)"
  by (induction xs) auto

lemma mset_sort_values: "mset (sort_values xs) = mset xs"
  by (induction xs) (auto simp: mset_insert_row)

lemma row_le_total: "row_le a b \<or> row_le b a"
  by (auto simp: row_le_def split: option.splits)

lemma row_le_trans: "row_le a b \<Longrightarrow> row_le b c \<Longrightarrow> row_le a c"
  by (auto simp: row_le_def split: option.splits)

lemma set_insert_row: "set (insert_row r xs) = insert r (set xs)"
  by (induction xs) auto

lemma sorted_insert_row: "sorted_wrt row_le xs \<Longrightarrow> sorted_wrt row_le (insert_row r xs)"
proof (induction xs)
  case Nil
  then show ?case by simp
next
  case (Cons x xs)
  show ?case
  proof (cases "row_le r x")
    case True
    with Cons.prems show ?thesis by (auto intro: row_le_trans)
  next
    case False
    then have "row_le x r" using row_le_total by blast
    with False Cons show ?thesis by (auto simp: set_insert_row)
  qed
qed

lemma sorted_sort_values: "sorted_wrt row_le (sort_values xs)"
  by (induction xs) (auto intro: sorted_insert_row)

lemma range_100_upto: "range_100 = [0..99]"
  unfolding range_100_def
  by (rule nth_equalityI) (auto simp: nth_upto)

lemma length_range_100: "length range_100 = 100"
  by (simp add: range_100_def)

lemma map_num_feature_rows: "map num (feature_rows h latest) = range_100"
  by (simp add: feature_rows_def range_100_def)

lemma map_num_empty_table: "map num empty_table = range_100"
  by (simp add: empty_table_def range_100_def)

lemma build_features_cases:
  assumes "build_features df w = Inr (out, ld)"
  obtains (empty) "hist_rows df = Inr []" "out = empty_table" "ld = None"
  | (rows) r rs where "hist_rows df = Inr (r # rs)" "ld = Some (max_date (fst r) rs)"
      "out = sort_values (feature_rows (r # rs) (max_date (fst r) rs))"
  using assms
  by (auto simp: build_features_def Let_def split: sum.splits list.splits)

lemma mset_num_out:
  assumes "build_features df w = Inr (out, ld)"
  shows "mset (map num out) = mset range_100"
  using assms
proof (cases rule: build_features_cases)
  case empty
  then show ?thesis by (simp add: map_num_empty_table)
next
  case (rows r rs)
  have "mset (map num out) = image_mset num (mset out)" by simp
  also have "\<dots> = image_mset num (mset (feature_rows (r # rs) (max_date (fst r) rs)))"
    using rows(3) by (simp add: mset_sort_values)
  also have "\<dots> = mset range_100"
    by (simp flip: mset_map add: map_num_feature_rows)
  finally show ?thesis .
qed

lemma count_list_upto: "count_list [0..99] (n::int) = (if 0 \<le> n \<and> n \<le> 99 then 1 else 0)"
proof -
  have d: "distinct [0..(99::int)]" by (rule distinct_upto)
  have "\<forall>a. count (mset [0..(99::int)]) a = (if a \<in> set [0..99] then 1 else 0)"
    using d unfolding distinct_count_atmost_1 .
  then have "count (mset [0..(99::int)]) n = (if n \<in> set [0..99] then 1 else 0)"
    by (rule spec)
  then show ?thesis
    by (simp only: count_mset set_upto atLeastAtMost_iff)
qed

text \<open>
  Claim C1. For every history table on which \<open>build_features\<close> returns, the
  feature table has exactly 100 rows and its \<open>num\<close> column holds exactly the
  integers 0 to 99, each exactly once (and nothing else).
\<close>

theorem build_features_all_values:
  assumes "build_features df window_days = Inr (out, latest_day)"
  shows "length out = 100 \<and> mset (map num out) = mset [0..99]
     \<and> count_list (map num out) n = (if 0 \<le> n \<and> n \<le> 99 then 1 else 0)"
proof -
  have m: "mset (map num out) = mset [0..99]"
    using mset_num_out [OF assms] by (simp add: range_100_upto)
  have "size (mset (map num out)) = size (mset [0..(99::int)])"
    by (simp only: m)
  then have l: "length out = 100" by simp
  have "count_list (map num out) n = count (mset (map num out)) n"
    by (simp only: count_mset)
  also have "\<dots> = count_list [0..99] n"
    by (simp only: m count_mset)
  finally show ?thesis using l m by (simp add: count_list_upto)
qed

lemma hist_rows_example:
  "hist_rows [(19723, ''12345 234'')] = Inr [(19723, 45), (19723, 34)]"
  by (simp add: py_split_def is_space_def last2_def py_int_def nat_literal_def
      is_digit_def digit_val_def)

lemma build_features_example:
  "build_features [(19723, ''12345 234'')] 30 =
     Inr (sort_values (feature_rows [(19723, 45), (19723, 34)] 19723), Some 19723)"
  unfolding build_features_def hist_rows_example
  by (simp add: max_date_def)


theorem build_features_all_values_witness:
  "build_features [(19723, ''12345 234'')] 30 =
     Inr (sort_values (feature_rows [(19723, 45), (19723, 34)] 19723), Some 19723)
   \<and> length (sort_values (feature_rows [(19723, 45), (19723, 34)] 19723)) = 100
   \<and> mset (map num (sort_values (feature_rows [(19723, 45), (19723, 34)] 19723))) = mset [0..99]
   \<and> count_list (map num (sort_values (feature_rows [(19723, 45), (19723, 34)] 19723))) 45 = 1"
proof -
  have a: "(if (0::int) \<le> 45 \<and> (45::int) \<le> 99 then 1 else 0) = (1::nat)"
    by simp
  show ?thesis
    using build_features_all_values [OF build_features_example, of 45] build_features_example
    unfolding a by blast
qed

lemma length_out:
  assumes "build_features df w = Inr (out, ld)"
  shows "length out = 100"
proof -
  have "size (mset (map num out)) = size (mset range_100)"
    by (simp only: mset_num_out [OF assms])
  then show ?thesis by (simp add: length_range_100)
qed

lemma distinct_range_100: "distinct range_100"
  by (simp add: range_100_def distinct_map)

lemma distinct_num_out:
  assumes "build_features df w = Inr (out, ld)"
  shows "distinct (map num out)"
  using mset_num_out [OF assms] distinct_range_100
  by (metis mset_eq_imp_distinct_iff)

lemma sorted_empty_table: "sorted_wrt row_le empty_table"
  by (auto simp: sorted_wrt_iff_nth_less empty_table_def row_le_def)

lemma sorted_out:
  assumes "build_features df w = Inr (out, ld)"
  shows "sorted_wrt row_le out"
  using assms
  by (cases rule: build_features_cases) (simp_all add: sorted_empty_table sorted_sort_values)

text \<open>
  Claim C5. The feature table returned by \<open>build_features\<close> is totally ordered: of
  two rows, the earlier one has the larger score, or the same score and the smaller
  \<open>num\<close>. (Rows whose score is NaN come after the others, by ascending \<open>num\<close>.)
\<close>

theorem build_features_sorted:
  assumes "build_features df window_days = Inr (out, latest_day)"
    and "i < j" and "j < length out"
  shows "case (score (out ! i), score (out ! j)) of
           (Some x, Some y) \<Rightarrow> y < x \<or> (x = y \<and> num (out ! i) < num (out ! j))
         | (Some x, None) \<Rightarrow> True
         | (None, Some y) \<Rightarrow> False
         | (None, None) \<Rightarrow> num (out ! i) < num (out ! j)"
proof -
  have le: "row_le (out ! i) (out ! j)"
    using sorted_out [OF assms(1)] assms(2,3) by (simp add: sorted_wrt_iff_nth_less)
  have "map num out ! i \<noteq> map num out ! j"
    using distinct_num_out [OF assms(1)] assms(2,3)
    by (simp add: nth_eq_iff_index_eq del: nth_map)
  then have ne: "num (out ! i) \<noteq> num (out ! j)"
    using assms(2,3) by simp
  show ?thesis
    using le ne by (auto simp: row_le_def split: option.splits)
qed

theorem build_features_sorted_witness:
  "build_features [(19723, ''12345 234'')] 30 =
     Inr (sort_values (feature_rows [(19723, 45), (19723, 34)] 19723), Some 19723)
   \<and> (0::nat) < 1
   \<and> 1 < length (sort_values (feature_rows [(19723, 45), (19723, 34)] 19723))
   \<and> (case (score (sort_values (feature_rows [(19723, 45), (19723, 34)] 19723) ! 0),
             score (sort_values (feature_rows [(19723, 45), (19723, 34)] 19723) ! 1)) of
           (Some x, Some y) \<Rightarrow>
              y < x \<or> (x = y \<and> num (sort_values (feature_rows [(19723, 45), (19723, 34)] 19723) ! 0)
                               < num (sort_values (feature_rows [(19723, 45), (19723, 34)] 19723) ! 1))
         | (Some x, None) \<Rightarrow> True
         | (None, Some y) \<Rightarrow> False
         | (None, None) \<Rightarrow>
              num (sort_values (feature_rows [(19723, 45), (19723, 34)] 19723) ! 0)
                < num (sort_values (feature_rows [(19723, 45), (19723, 34)] 19723) ! 1))"
proof -
  have l: "1 < length (sort_values (feature_rows [(19723, 45), (19723, 34)] 19723))"
    using length_out [OF build_features_example] by simp
  have z: "(0::nat) < 1" by simp
  show ?thesis
    using build_features_sorted [OF build_features_example z l] build_features_example l z
    by blast
qed

section \<open>Properties of the orchestrator\<close>

lemma fetch_today:
  "fetch_latest_from_ketqua r now = Inr (today, all_prizes, l2) \<Longrightarrow> today = strftime now"
  by (auto simp: fetch_latest_from_ketqua_def Let_def split: http_reply.splits if_splits sum.splits)

lemma main_csv_file:
  "csv_file (fst (main read_csv to_csv to_datetime force r now w)) =
     (case fetch_latest_from_ketqua r now of
        Inl e \<Rightarrow> csv_file w
      | Inr (today, all_prizes, l2) \<Rightarrow>
          if force \<or> today \<notin> set (map fst (load_history read_csv w))
          then Some (to_csv (load_history read_csv w @ [(today, all_prizes)]))
          else csv_file w)"
  by (simp add: main_def Let_def split: sum.splits prod.splits)

lemma main_trace:
  "trace (fst (main read_csv to_csv to_datetime force r now w)) =
     trace w @ (if csv_file w = None then [] else [ReadCsv])
     @ (case fetch_latest_from_ketqua r now of
          Inl e \<Rightarrow> [Print (FetchFailed e)]
        | Inr (today, all_prizes, l2) \<Rightarrow>
            if force \<or> today \<notin> set (map fst (load_history read_csv w))
            then [WriteCsv, Print (Added today)] else [])
     @ (if snd (main read_csv to_csv to_datetime force r now w) = None
        then [WriteIndex, WriteCompact] else [])"
  by (simp add: main_def Let_def split: sum.splits prod.splits)

lemma load_history_main:
  "load_history read_csv (fst (main read_csv to_csv to_datetime force r now w)) =
     (case fetch_latest_from_ketqua r now of
        Inl e \<Rightarrow> load_history read_csv w
      | Inr (today, all_prizes, l2) \<Rightarrow>
          if force \<or> today \<notin> set (map fst (load_history read_csv w))
          then read_csv (to_csv (load_history read_csv w @ [(today, all_prizes)]))
          else load_history read_csv w)"
  unfolding load_history_def [of read_csv "fst (main read_csv to_csv to_datetime force r now w)"]
    main_csv_file
  by (simp add: load_history_def split: sum.splits prod.splits)

lemma strftime_example: "strftime 19723 = ''2024-01-01''"
  by code_simp

lemma read_ymd_example: "read_ymd ''2024-01-01'' = Inr 19723"
  by code_simp

lemma fetch_example:
  "fetch_latest_from_ketqua (Reply 200 ''12345 234'') 19723 =
     Inr (''2024-01-01'', ''12345 234'', [''45'', ''34''])"
  by code_simp

lemma fetch_failures:
  "fetch_latest_from_ketqua NoReply now = Inl ConnectionError"
  "400 \<le> status \<Longrightarrow> status < 600 \<Longrightarrow>
     fetch_latest_from_ketqua (Reply status html) now = Inl (HTTPError status)"
  "\<not> (400 \<le> status \<and> status < 600) \<Longrightarrow> findall_nums html = [] \<Longrightarrow>
     fetch_latest_from_ketqua (Reply status html) now = Inl RuntimeError"
  by (simp_all add: fetch_latest_from_ketqua_def)

lemma build_features_Nil: "build_features [] window_days = Inr (empty_table, None)"
  by (simp add: build_features_def)

lemma features_of_frame_Nil:
  "features_of_frame to_datetime [] window_days = Inr (empty_table, None)"
  by (simp add: features_of_frame_def build_features_Nil)

lemma features_of_frame_example:
  "features_of_frame read_ymd [(''2024-01-01'', ''12345 234'')] 30 =
     Inr (sort_values (feature_rows [(19723, 45), (19723, 34)] 19723), Some 19723)"
  by (simp add: features_of_frame_def read_ymd_example build_features_example
      del: hist_rows.simps)

text \<open>
  Claim C4, amended. A run of \<open>main\<close> reads the history file once when it exists and
  not at all otherwise. It rewrites the file once when the fetch succeeds and the force
  flag is set or the text of today's date is absent from the date column read; it does
  not rewrite it otherwise.
\<close>

theorem main_csv_io:
  "count_list (trace (fst (main read_csv to_csv to_datetime force r now w))) ReadCsv =
     count_list (trace w) ReadCsv + (if csv_file w = None then 0 else 1)
   \<and> count_list (trace (fst (main read_csv to_csv to_datetime force r now w))) WriteCsv =
     count_list (trace w) WriteCsv
     + (case fetch_latest_from_ketqua r now of
          Inl e \<Rightarrow> 0
        | Inr (today, all_prizes, l2) \<Rightarrow>
            if force \<or> today \<notin> set (map fst (load_history read_csv w)) then 1 else 0)"
  unfolding main_trace
  by (simp split: sum.splits prod.splits)

theorem main_csv_io_witness:
  "count_list (trace (fst (main (\<lambda>f. f) (\<lambda>df. df) read_ymd False (Reply 200 ''12345 234'') 19723
      \<lparr>csv_file = Some [], index_html = None, index_top3_only_html = None, trace = []\<rparr>)))
      ReadCsv = 1
   \<and> count_list (trace (fst (main (\<lambda>f. f) (\<lambda>df. df) read_ymd False (Reply 200 ''12345 234'') 19723
      \<lparr>csv_file = Some [], index_html = None, index_top3_only_html = None, trace = []\<rparr>)))
      WriteCsv = 1"
  using main_csv_io [of "\<lambda>f. f" "\<lambda>df. df" read_ymd False "Reply 200 ''12345 234''" 19723
      "\<lparr>csv_file = Some [], index_html = None, index_top3_only_html = None, trace = []\<rparr>"]
  by (simp add: fetch_example load_history_def)

theorem main_csv_not_rewritten:
  "count_list (trace (fst (main (\<lambda>f. f) (\<lambda>df. df) read_ymd False NoReply 19723
      \<lparr>csv_file = Some [], index_html = None, index_top3_only_html = None, trace = []\<rparr>)))
      WriteCsv = 0"
  unfolding main_trace
  by (simp add: fetch_failures(1) load_history_def)

text \<open>
  Claim C6, amended. Take two runs of \<open>main\<close> on the same day without the force flag,
  and let a text of today's date that was written to the file be read kept as it is. The
  two runs rewrite the file at most once, so they append at most one row. The file after
  the two runs is the file after the first run whenever the first run's fetch succeeded,
  or the second run's fetch failed, or the text of today's date was in the date column
  already. When the first fetch fails, the second succeeds and the text is absent, the
  second run appends the row of the day. A date is present when its text is: a row of the
  same day in another spelling does not count.
\<close>

theorem main_twice_without_force:
  assumes "\<And>df. strftime now \<in> set (map fst df) \<Longrightarrow>
             strftime now \<in> set (map fst (read_csv (to_csv df)))"
  shows "count_list (trace (fst (main read_csv to_csv to_datetime False r2 now
            (fst (main read_csv to_csv to_datetime False r1 now w))))) WriteCsv
       \<le> count_list (trace w) WriteCsv + 1
    \<and> (\<not> isl (fetch_latest_from_ketqua r1 now) \<or> isl (fetch_latest_from_ketqua r2 now)
         \<or> strftime now \<in> set (map fst (load_history read_csv w))
        \<longrightarrow> csv_file (fst (main read_csv to_csv to_datetime False r2 now
                (fst (main read_csv to_csv to_datetime False r1 now w))))
            = csv_file (fst (main read_csv to_csv to_datetime False r1 now w)))
    \<and> (isl (fetch_latest_from_ketqua r1 now)
         \<and> fetch_latest_from_ketqua r2 now = Inr (today, all_prizes, l2)
         \<and> today \<notin> set (map fst (load_history read_csv w))
        \<longrightarrow> csv_file (fst (main read_csv to_csv to_datetime False r2 now
                (fst (main read_csv to_csv to_datetime False r1 now w))))
            = Some (to_csv (load_history read_csv w @ [(today, all_prizes)])))"
proof -
  let ?w1 = "fst (main read_csv to_csv to_datetime False r1 now w)"
  let ?w2 = "fst (main read_csv to_csv to_datetime False r2 now ?w1)"
  let ?t = "strftime now"
  let ?df = "load_history read_csv w"
  have kept: "?t \<in> set (map fst (read_csv (to_csv (?df @ [(?t, p)]))))" for p
    by (rule assms) simp
  have second: "csv_file ?w2 = csv_file ?w1"
    if "\<not> isl (fetch_latest_from_ketqua r1 now) \<or> isl (fetch_latest_from_ketqua r2 now)
         \<or> ?t \<in> set (map fst ?df)"
  proof (cases "fetch_latest_from_ketqua r2 now")
    case (Inl e)
    then show ?thesis by (simp add: main_csv_file)
  next
    case (Inr x2)
    then obtain p2 k2 where r2: "fetch_latest_from_ketqua r2 now = Inr (?t, p2, k2)"
      using fetch_today [of r2 now] by (cases x2) auto
    have "?t \<in> set (map fst (load_history read_csv ?w1))"
    proof (cases "fetch_latest_from_ketqua r1 now")
      case (Inl e)
      with that r2 show ?thesis by (simp add: load_history_main)
    next
      case (Inr x1)
      then obtain p1 k1 where r1: "fetch_latest_from_ketqua r1 now = Inr (?t, p1, k1)"
        using fetch_today [of r1 now] by (cases x1) auto
      show ?thesis
        unfolding load_history_main r1 using kept [of p1] by simp
    qed
    then show ?thesis
      unfolding main_csv_file [of read_csv to_csv to_datetime False r2 now ?w1] r2 by simp
  qed
  have count: "count_list (trace ?w2) WriteCsv \<le> count_list (trace w) WriteCsv + 1"
  proof (cases "fetch_latest_from_ketqua r1 now")
    case (Inl e)
    have "count_list (trace ?w1) WriteCsv = count_list (trace w) WriteCsv"
      unfolding main_trace by (simp add: Inl)
    moreover have "count_list (trace ?w2) WriteCsv \<le> count_list (trace ?w1) WriteCsv + 1"
      unfolding main_trace [of read_csv to_csv to_datetime False r2 now ?w1]
      by (simp split: sum.splits prod.splits)
    ultimately show ?thesis by simp
  next
    case (Inr x1)
    then obtain p1 k1 where r1: "fetch_latest_from_ketqua r1 now = Inr (?t, p1, k1)"
      using fetch_today [of r1 now] by (cases x1) auto
    have one: "count_list (trace ?w1) WriteCsv \<le> count_list (trace w) WriteCsv + 1"
      unfolding main_trace by (simp add: r1)
    have in1: "?t \<in> set (map fst (load_history read_csv ?w1))"
      unfolding load_history_main r1 using kept [of p1] by simp
    have "count_list (trace ?w2) WriteCsv = count_list (trace ?w1) WriteCsv"
    proof (cases "fetch_latest_from_ketqua r2 now")
      case (Inl e)
      show ?thesis
        unfolding main_trace [of read_csv to_csv to_datetime False r2 now ?w1]
        by (simp add: Inl)
    next
      case (Inr x2)
      then obtain p2 k2 where r2: "fetch_latest_from_ketqua r2 now = Inr (?t, p2, k2)"
        using fetch_today [of r2 now] by (cases x2) auto
      show ?thesis
        unfolding main_trace [of read_csv to_csv to_datetime False r2 now ?w1]
        using in1 by (simp add: r2)
    qed
    with one show ?thesis by simp
  qed
  have third: "csv_file ?w2 = Some (to_csv (?df @ [(today, all_prizes)]))"
    if "isl (fetch_latest_from_ketqua r1 now)
         \<and> fetch_latest_from_ketqua r2 now = Inr (today, all_prizes, l2)
         \<and> today \<notin> set (map fst ?df)"
  proof -
    from that obtain e where r1: "fetch_latest_from_ketqua r1 now = Inl e"
      by (cases "fetch_latest_from_ketqua r1 now") auto
    have same: "load_history read_csv ?w1 = ?df"
      by (simp add: load_history_main r1)
    show ?thesis
      unfolding main_csv_file [of read_csv to_csv to_datetime False r2 now ?w1] same
      using that by simp
  qed
  from count second third show ?thesis by blast
qed

theorem main_twice_without_force_witness:
  "\<not> isl (fetch_latest_from_ketqua (Reply 200 ''12345 234'') 19723)
   \<and> csv_file (fst (main (\<lambda>f. f) (\<lambda>df. df) read_ymd False (Reply 200 ''11 22'') 19723
        (fst (main (\<lambda>f. f) (\<lambda>df. df) read_ymd False (Reply 200 ''12345 234'') 19723
           \<lparr>csv_file = None, index_html = None, index_top3_only_html = None, trace = []\<rparr>))))
     = csv_file (fst (main (\<lambda>f. f) (\<lambda>df. df) read_ymd False (Reply 200 ''12345 234'') 19723
           \<lparr>csv_file = None, index_html = None, index_top3_only_html = None, trace = []\<rparr>))
   \<and> csv_file (fst (main (\<lambda>f. f) (\<lambda>df. df) read_ymd False (Reply 200 ''12345 234'') 19723
           \<lparr>csv_file = None, index_html = None, index_top3_only_html = None, trace = []\<rparr>))
     = Some [(''2024-01-01'', ''12345 234'')]"
proof -
  have kept: "strftime 19723 \<in> set (map fst df) \<Longrightarrow>
      strftime 19723 \<in> set (map fst ((\<lambda>f. f) ((\<lambda>df. df) df)))" for df :: frame
    by simp
  have a: "\<not> isl (fetch_latest_from_ketqua (Reply 200 ''12345 234'') 19723)"
    by (simp add: fetch_example)
  have b: "csv_file (fst (main (\<lambda>f. f) (\<lambda>df. df) read_ymd False (Reply 200 ''12345 234'') 19723
           \<lparr>csv_file = None, index_html = None, index_top3_only_html = None, trace = []\<rparr>))
     = Some [(''2024-01-01'', ''12345 234'')]"
    by (simp add: main_csv_file fetch_example load_history_def)
  show ?thesis
    using a b main_twice_without_force [of 19723 "\<lambda>f. f" "\<lambda>df. df", OF kept,
      of read_ymd "Reply 200 ''11 22''" "Reply 200 ''12345 234''"
      "\<lparr>csv_file = None, index_html = None, index_top3_only_html = None, trace = []\<rparr>"]
    by blast
qed

lemma fetch_example_2:
  "fetch_latest_from_ketqua (Reply 200 ''12345 234'') 20761 =
     Inr (''2026-11-04'', ''12345 234'', [''45'', ''34''])"
  by code_simp

theorem main_twice_history_differs:
  "csv_file (fst (main (\<lambda>f. f) (\<lambda>df. df) read_ymd False NoReply 19723
      \<lparr>csv_file = None, index_html = None, index_top3_only_html = None, trace = []\<rparr>)) = None
   \<and> csv_file (fst (main (\<lambda>f. f) (\<lambda>df. df) read_ymd False (Reply 200 ''12345 234'') 19723
        (fst (main (\<lambda>f. f) (\<lambda>df. df) read_ymd False NoReply 19723
           \<lparr>csv_file = None, index_html = None, index_top3_only_html = None, trace = []\<rparr>))))
     = Some [(''2024-01-01'', ''12345 234'')]
   \<and> csv_file (fst (main (\<lambda>f. f) (\<lambda>df. df) read_ymd False (Reply 200 ''12345 234'') 20761
        \<lparr>csv_file = Some [(''2026-11-4'', ''11 22'')], index_html = None,
           index_top3_only_html = None, trace = []\<rparr>))
     = Some [(''2026-11-4'', ''11 22''), (''2026-11-04'', ''12345 234'')]
   \<and> read_ymd ''2026-11-4'' = Inr 20761 \<and> read_ymd ''2026-11-04'' = Inr 20761"
proof -
  have a: "csv_file (fst (main (\<lambda>f. f) (\<lambda>df. df) read_ymd False NoReply 19723
      \<lparr>csv_file = None, index_html = None, index_top3_only_html = None, trace = []\<rparr>)) = None"
    by (simp add: main_csv_file fetch_failures(1))
  have b: "csv_file (fst (main (\<lambda>f. f) (\<lambda>df. df) read_ymd False (Reply 200 ''12345 234'') 19723
        (fst (main (\<lambda>f. f) (\<lambda>df. df) read_ymd False NoReply 19723
           \<lparr>csv_file = None, index_html = None, index_top3_only_html = None, trace = []\<rparr>))))
     = Some [(''2024-01-01'', ''12345 234'')]"
    unfolding main_csv_file [of _ _ _ _ "Reply 200 ''12345 234''"] load_history_main
    by (simp add: fetch_failures(1) fetch_example load_history_def)
  have c: "csv_file (fst (main (\<lambda>f. f) (\<lambda>df. df) read_ymd False (Reply 200 ''12345 234'') 20761
        \<lparr>csv_file = Some [(''2026-11-4'', ''11 22'')], index_html = None,
           index_top3_only_html = None, trace = []\<rparr>))
     = Some [(''2026-11-4'', ''11 22''), (''2026-11-04'', ''12345 234'')]"
    by (simp add: main_csv_file fetch_example_2 load_history_def)
  have d: "read_ymd ''2026-11-4'' = Inr 20761" "read_ymd ''2026-11-04'' = Inr 20761"
    by code_simp+
  from a b c d show ?thesis by blast
qed

text \<open>
  Claim C7. When \<open>main\<close> runs with the force flag and the fetch succeeds, the row of
  today's date is appended to the frame read from the history file and the file is
  rewritten, whether or not the frame already holds a row of that date.
\<close>

theorem main_force_appends:
  assumes "fetch_latest_from_ketqua r now = Inr (today, all_prizes, l2)"
  shows "today = strftime now
    \<and> csv_file (fst (main read_csv to_csv to_datetime True r now w))
      = Some (to_csv (load_history read_csv w @ [(today, all_prizes)]))"
  using assms fetch_today [OF assms] by (simp add: main_csv_file)

theorem main_force_appends_witness:
  "fetch_latest_from_ketqua (Reply 200 ''12345 234'') 19723 =
     Inr (''2024-01-01'', ''12345 234'', [''45'', ''34''])
   \<and> csv_file (fst (main (\<lambda>f. f) (\<lambda>df. df) read_ymd True (Reply 200 ''12345 234'') 19723
        \<lparr>csv_file = Some [(''2024-01-01'', ''11 22'')], index_html = None,
           index_top3_only_html = None, trace = []\<rparr>))
     = Some [(''2024-01-01'', ''11 22''), (''2024-01-01'', ''12345 234'')]"
  using main_force_appends [OF fetch_example, of "\<lambda>f. f" "\<lambda>df. df" read_ymd
      "\<lparr>csv_file = Some [(''2024-01-01'', ''11 22'')], index_html = None,
           index_top3_only_html = None, trace = []\<rparr>"] fetch_example
  by (simp add: load_history_def strftime_example)

lemma main_after_failed_fetch:
  assumes "fetch_latest_from_ketqua r now = Inl e"
  shows "main read_csv to_csv to_datetime force r now w =
      (case features_of_frame to_datetime (load_history read_csv w) 30 of
         Inl e' \<Rightarrow>
           (w\<lparr>trace := trace w @ (if csv_file w = None then [] else [ReadCsv])
                 @ [Print (FetchFailed e)]\<rparr>, Some e')
       | Inr (features, latest_day) \<Rightarrow>
           (w\<lparr>index_html := Some (rebuild_html features latest_day 3),
               index_top3_only_html := Some (rebuild_html_compact features latest_day 3),
               trace := trace w @ (if csv_file w = None then [] else [ReadCsv])
                 @ [Print (FetchFailed e), WriteIndex, WriteCompact]\<rparr>, None))"
  using assms
  by (cases "csv_file w") (simp_all add: main_def Let_def split: sum.splits prod.splits)

text \<open>
  Claim C9, amended. When the fetch raises (no response, a status code from 400 to 599, no
  numeric token in the page), \<open>main\<close> prints the message and leaves the history file as
  it was. It then computes the features of the history it read: when \<open>build_features\<close>
  returns on that history, both pages are written from its table and the run ends without
  an exception; when \<open>build_features\<close> raises on it, the run ends with that exception
  and no page is written.
\<close>

theorem main_fetch_error:
  assumes "fetch_latest_from_ketqua r now = Inl e"
  shows "csv_file (fst (main read_csv to_csv to_datetime force r now w)) = csv_file w
    \<and> main read_csv to_csv to_datetime force r now w =
      (case features_of_frame to_datetime (load_history read_csv w) 30 of
         Inl e' \<Rightarrow>
           (w\<lparr>trace := trace w @ (if csv_file w = None then [] else [ReadCsv])
                 @ [Print (FetchFailed e)]\<rparr>, Some e')
       | Inr (features, latest_day) \<Rightarrow>
           (w\<lparr>index_html := Some (rebuild_html features latest_day 3),
               index_top3_only_html := Some (rebuild_html_compact features latest_day 3),
               trace := trace w @ (if csv_file w = None then [] else [ReadCsv])
                 @ [Print (FetchFailed e), WriteIndex, WriteCompact]\<rparr>, None))"
proof (intro conjI)
  show "csv_file (fst (main read_csv to_csv to_datetime force r now w)) = csv_file w"
    using assms by (simp add: main_csv_file)
qed (rule main_after_failed_fetch [OF assms])

theorem main_fetch_error_witness:
  "fetch_latest_from_ketqua (Reply 503 ''12345 234'') 19723 = Inl (HTTPError 503)
   \<and> main (\<lambda>f. f) (\<lambda>df. df) read_ymd False (Reply 503 ''12345 234'') 19723
        \<lparr>csv_file = Some [(''2024-01-01'', ''12345 234'')], index_html = None,
           index_top3_only_html = None, trace = []\<rparr>
     = (\<lparr>csv_file = Some [(''2024-01-01'', ''12345 234'')],
          index_html = Some (rebuild_html
            (sort_values (feature_rows [(19723, 45), (19723, 34)] 19723)) (Some 19723) 3),
          index_top3_only_html = Some (rebuild_html_compact
            (sort_values (feature_rows [(19723, 45), (19723, 34)] 19723)) (Some 19723) 3),
          trace = [ReadCsv, Print (FetchFailed (HTTPError 503)), WriteIndex, WriteCompact]\<rparr>,
        None)"
proof -
  have f: "fetch_latest_from_ketqua (Reply 503 ''12345 234'') 19723 = Inl (HTTPError 503)"
    by (simp add: fetch_failures(2))
  show ?thesis
    using main_fetch_error [OF f, of "\<lambda>f. f" "\<lambda>df. df" read_ymd False
      "\<lparr>csv_file = Some [(''2024-01-01'', ''12345 234'')], index_html = None,
           index_top3_only_html = None, trace = []\<rparr>"] f
    by (simp add: load_history_def features_of_frame_example)
qed

lemma hist_rows_unreadable: "hist_rows [(19723, ''12 ab'')] = Inl ValueError"
  by (simp add: py_split_def is_space_def last2_def py_int_def nat_literal_def
      is_digit_def digit_val_def)

lemma features_of_frame_unreadable:
  "features_of_frame read_ymd [(''2024-01-01'', ''12 ab'')] 30 = Inl ValueError"
  by (simp add: features_of_frame_def read_ymd_example build_features_def
      hist_rows_unreadable del: hist_rows.simps)

theorem main_fetch_error_no_pages:
  "main (\<lambda>f. f) (\<lambda>df. df) read_ymd False NoReply 19723
        \<lparr>csv_file = Some [(''2024-01-01'', ''12 ab'')], index_html = None,
           index_top3_only_html = None, trace = []\<rparr>
     = (\<lparr>csv_file = Some [(''2024-01-01'', ''12 ab'')], index_html = None,
          index_top3_only_html = None,
          trace = [ReadCsv, Print (FetchFailed ConnectionError)]\<rparr>,
        Some ValueError)"
  using main_after_failed_fetch [OF fetch_failures(1),
      where read_csv = "\<lambda>f. f" and to_csv = "\<lambda>df. df" and to_datetime = read_ymd
        and now = 19723 and force = False
        and w = "\<lparr>csv_file = Some [(''2024-01-01'', ''12 ab'')], index_html = None,
           index_top3_only_html = None, trace = []\<rparr>"]
  by (simp add: load_history_def features_of_frame_unreadable)

section \<open>The empty history\<close>

lemma take3_empty_table:
  "take 3 empty_table =
     [\<lparr>num = 0, freq_30d = 0, recency_days = None, score = Some 0\<rparr>,
      \<lparr>num = 1, freq_30d = 0, recency_days = None, score = Some 0\<rparr>,
      \<lparr>num = 2, freq_30d = 0, recency_days = None, score = Some 0\<rparr>]"
proof -
  have "take 3 [0..<100] = [0..<3]" by (simp add: take_upt)
  also have "\<dots> = [0, 1, 2]" by (simp add: upt_rec)
  finally show ?thesis by (simp add: empty_table_def take_map)
qed

lemma fmt_small:
  "fmt_02d 0 = ''00''" "fmt_02d 1 = ''01''" "fmt_02d 2 = ''02''"
  "fmt_score (Some 0) = ''0.000''" "str_int 0 = ''0''"
  by code_simp+

lemma li_full_empty:
  \<open>li_full \<lparr>num = 0, freq_30d = 0, recency_days = None, score = Some 0\<rparr> =
     ''<li>00 '' @ [CHR 0xE2, CHR 0x80, CHR 0x93] @ '' score 0.000, 30d: 0, recency:  ng''
     @ [CHR 0xC3, CHR 0xA0] @ ''y</li>''\<close>
  \<open>li_full \<lparr>num = 1, freq_30d = 0, recency_days = None, score = Some 0\<rparr> =
     ''<li>01 '' @ [CHR 0xE2, CHR 0x80, CHR 0x93] @ '' score 0.000, 30d: 0, recency:  ng''
     @ [CHR 0xC3, CHR 0xA0] @ ''y</li>''\<close>
  \<open>li_full \<lparr>num = 2, freq_30d = 0, recency_days = None, score = Some 0\<rparr> =
     ''<li>02 '' @ [CHR 0xE2, CHR 0x80, CHR 0x93] @ '' score 0.000, 30d: 0, recency:  ng''
     @ [CHR 0xC3, CHR 0xA0] @ ''y</li>''\<close>
  by (simp_all add: li_full_def fmt_small)

lemma li_compact_empty:
  \<open>li_compact \<lparr>num = 0, freq_30d = 0, recency_days = None, score = Some 0\<rparr> =
     ''<li>00 '' @ [CHR 0xE2, CHR 0x80, CHR 0x93] @ '' score 0.000</li>''\<close>
  \<open>li_compact \<lparr>num = 1, freq_30d = 0, recency_days = None, score = Some 0\<rparr> =
     ''<li>01 '' @ [CHR 0xE2, CHR 0x80, CHR 0x93] @ '' score 0.000</li>''\<close>
  \<open>li_compact \<lparr>num = 2, freq_30d = 0, recency_days = None, score = Some 0\<rparr> =
     ''<li>02 '' @ [CHR 0xE2, CHR 0x80, CHR 0x93] @ '' score 0.000</li>''\<close>
  by (simp_all add: li_compact_def fmt_small)

text \<open>
  Claim C8. On an empty history table \<open>build_features\<close> returns the 100 values in
  order with every score zero, every count zero and every recency undefined, and no
  latest day. The page rendered from it has an empty date after its label, and its list
  holds the values 00, 01 and 02 in that order, each with the score 0.000.
\<close>

theorem empty_history:
  \<open>build_features [] window_days = Inr (empty_table, None)
   \<and> map num empty_table = [0..99]
   \<and> map score empty_table = replicate 100 (Some 0)
   \<and> map freq_30d empty_table = replicate 100 0
   \<and> map recency_days empty_table = replicate 100 None
   \<and> rebuild_html empty_table None 3 =
       full_head @ ''</p>\<newline><ul>\<newline>''
       @ ''<li>00 '' @ [CHR 0xE2, CHR 0x80, CHR 0x93] @ '' score 0.000, 30d: 0, recency:  ng''
       @ [CHR 0xC3, CHR 0xA0] @ ''y</li>''
       @ ''<li>01 '' @ [CHR 0xE2, CHR 0x80, CHR 0x93] @ '' score 0.000, 30d: 0, recency:  ng''
       @ [CHR 0xC3, CHR 0xA0] @ ''y</li>''
       @ ''<li>02 '' @ [CHR 0xE2, CHR 0x80, CHR 0x93] @ '' score 0.000, 30d: 0, recency:  ng''
       @ [CHR 0xC3, CHR 0xA0] @ ''y</li>''
       @ ''\<newline></ul>\<newline><p style="color:red">'' @ disclaimer
       @ ''</p>\<newline></body></html>''
   \<and> rebuild_html_compact empty_table None 3 =
       compact_head @ ''</p>\<newline><ol>\<newline>''
       @ ''<li>00 '' @ [CHR 0xE2, CHR 0x80, CHR 0x93] @ '' score 0.000</li>''
       @ ''<li>01 '' @ [CHR 0xE2, CHR 0x80, CHR 0x93] @ '' score 0.000</li>''
       @ ''<li>02 '' @ [CHR 0xE2, CHR 0x80, CHR 0x93] @ '' score 0.000</li>''
       @ ''\<newline></ol>\<newline><p style="color:red">'' @ disclaimer
       @ ''</p>\<newline></body></html>''\<close>
proof (intro conjI)
  show "build_features [] window_days = Inr (empty_table, None)"
    by (rule build_features_Nil)
  show "map num empty_table = [0..99]"
    by (simp only: map_num_empty_table range_100_upto)
  show "map score empty_table = replicate 100 (Some 0)"
    by (simp add: empty_table_def comp_def map_replicate_const)
  show "map freq_30d empty_table = replicate 100 0"
    by (simp add: empty_table_def comp_def map_replicate_const)
  show "map recency_days empty_table = replicate 100 None"
    by (simp add: empty_table_def comp_def map_replicate_const)
  show \<open>rebuild_html empty_table None 3 =
       full_head @ ''</p>\<newline><ul>\<newline>''
       @ ''<li>00 '' @ [CHR 0xE2, CHR 0x80, CHR 0x93] @ '' score 0.000, 30d: 0, recency:  ng''
       @ [CHR 0xC3, CHR 0xA0] @ ''y</li>''
       @ ''<li>01 '' @ [CHR 0xE2, CHR 0x80, CHR 0x93] @ '' score 0.000, 30d: 0, recency:  ng''
       @ [CHR 0xC3, CHR 0xA0] @ ''y</li>''
       @ ''<li>02 '' @ [CHR 0xE2, CHR 0x80, CHR 0x93] @ '' score 0.000, 30d: 0, recency:  ng''
       @ [CHR 0xC3, CHR 0xA0] @ ''y</li>''
       @ ''\<newline></ul>\<newline><p style="color:red">'' @ disclaimer
       @ ''</p>\<newline></body></html>''\<close>
    unfolding rebuild_html_def take3_empty_table
    by (simp add: li_full_empty date_text_def)
  show \<open>rebuild_html_compact empty_table None 3 =
       compact_head @ ''</p>\<newline><ol>\<newline>''
       @ ''<li>00 '' @ [CHR 0xE2, CHR 0x80, CHR 0x93] @ '' score 0.000</li>''
       @ ''<li>01 '' @ [CHR 0xE2, CHR 0x80, CHR 0x93] @ '' score 0.000</li>''
       @ ''<li>02 '' @ [CHR 0xE2, CHR 0x80, CHR 0x93] @ '' score 0.000</li>''
       @ ''\<newline></ol>\<newline><p style="color:red">'' @ disclaimer
       @ ''</p>\<newline></body></html>''\<close>
    unfolding rebuild_html_compact_def take3_empty_table
    by (simp add: li_compact_empty date_text_def)
qed

theorem empty_history_witness:
  "build_features [] 30 = Inr (empty_table, None)
   \<and> map num (take 3 empty_table) = [0, 1, 2]
   \<and> map score empty_table = replicate 100 (Some 0)"
  using empty_history [of 30] by (simp add: take3_empty_table)

section \<open>The rows of the feature table\<close>

lemma feature_rows_nth:
  "i < 100 \<Longrightarrow>
   feature_rows h l ! i =
     \<lparr>num = int i, freq_30d = freq_30d_of h (l - 29) (int i),
      recency_days = recency_of h l (int i), score = score_col h l ! i\<rparr>"
  by (simp add: feature_rows_def freq_col_def recency_col_def range_100_def)

lemma length_feature_rows: "length (feature_rows h l) = 100"
  by (simp add: feature_rows_def)

lemma max_date_Max: "max_date d rs = Max (insert d (fst ` set rs))"
proof -
  have "max_date d rs = Max (set (d # map fst rs))"
    unfolding max_date_def by (simp only: Max.set_eq_fold)
  then show ?thesis by simp
qed

lemma build_features_latest:
  assumes "build_features df w = Inr (out, Some l)" and "hist_rows df = Inr h"
  shows "h \<noteq> [] \<and> l = Max (fst ` set h) \<and> out = sort_values (feature_rows h l)"
  using assms(1)
proof (cases rule: build_features_cases)
  case empty
  then show ?thesis by simp
next
  case (rows r rs)
  with assms(2) have h: "h = r # rs" by simp
  from rows(2) have l: "l = max_date (fst r) rs" by simp
  show ?thesis using rows(3) by (simp add: h l max_date_Max)
qed

lemma build_features_of_draws:
  assumes "hist_rows df = Inr h" and "h \<noteq> []"
  shows "build_features df w =
     Inr (sort_values (feature_rows h (Max (fst ` set h))), Some (Max (fst ` set h)))"
proof -
  obtain r rs where h: "h = r # rs" using assms(2) by (cases h) auto
  show ?thesis by (simp add: build_features_def assms(1) h max_date_Max)
qed

lemma out_row:
  assumes "build_features df w = Inr (out, Some l)" and "hist_rows df = Inr h"
    and "r \<in> set out"
  obtains i where "i < 100" and "r = feature_rows h l ! i"
proof -
  have "out = sort_values (feature_rows h l)"
    using build_features_latest [OF assms(1,2)] by simp
  then have "mset out = mset (feature_rows h l)" by (simp add: mset_sort_values)
  then have "set out = set (feature_rows h l)" by (rule mset_eq_setD)
  with assms(3) have "r \<in> set (feature_rows h l)" by simp
  then obtain i where "i < length (feature_rows h l)" "feature_rows h l ! i = r"
    by (auto simp: in_set_conv_nth)
  then show ?thesis using that by (simp add: length_feature_rows)
qed

lemma row_in_out:
  assumes "build_features df w = Inr (out, Some l)" and "hist_rows df = Inr h"
    and "i < 100"
  shows "feature_rows h l ! i \<in> set out"
proof -
  have "out = sort_values (feature_rows h l)"
    using build_features_latest [OF assms(1,2)] by simp
  then have "mset out = mset (feature_rows h l)" by (simp add: mset_sort_values)
  then have "set out = set (feature_rows h l)" by (rule mset_eq_setD)
  then show ?thesis using assms(3) by (simp add: length_feature_rows)
qed

lemma latest_is_max:
  assumes "h \<noteq> []" and "l = Max (fst ` set h)"
  shows "(\<forall>x \<in> set h. fst x \<le> l) \<and> (\<exists>v. (l, v) \<in> set h)"
proof -
  have fin: "finite (fst ` set h)" and ne: "fst ` set h \<noteq> {}"
    using assms(1) by auto
  have "l \<in> fst ` set h" unfolding assms(2) using fin ne by (rule Max_in)
  then have ex: "\<exists>v. (l, v) \<in> set h" by auto
  have "\<forall>x \<in> set h. fst x \<le> l"
    unfolding assms(2) using fin by (auto intro: Max_ge)
  with ex show ?thesis by blast
qed

lemma last_seen_None: "last_seen_of h n = None \<longleftrightarrow> n \<notin> snd ` set h"
proof -
  have "filter (\<lambda>(d, v). v = n) h = [] \<longleftrightarrow> n \<notin> snd ` set h"
    by (force simp: filter_empty_conv)
  then show ?thesis
    by (auto simp: last_seen_of_def split: list.splits)
qed

lemma last_seen_Some:
  assumes "last_seen_of h n = Some m"
  shows "(m, n) \<in> set h \<and> (\<forall>d. (d, n) \<in> set h \<longrightarrow> d \<le> m)"
proof -
  let ?f = "filter (\<lambda>(d, v). v = n) h"
  from assms obtain r rs where f: "?f = r # rs" and m: "m = max_date (fst r) rs"
    by (auto simp: last_seen_of_def split: list.splits)
  have m': "m = Max (fst ` set ?f)" by (simp add: m f max_date_Max)
  have fin: "finite (fst ` set ?f)" and ne: "fst ` set ?f \<noteq> {}"
    using f by auto
  have "m \<in> fst ` set ?f" unfolding m' using fin ne by (rule Max_in)
  then have a: "(m, n) \<in> set h" by auto
  have b: "\<forall>d. (d, n) \<in> set h \<longrightarrow> d \<le> m"
  proof (intro allI impI)
    fix d assume "(d, n) \<in> set h"
    then have "d \<in> fst ` set ?f" by force
    then show "d \<le> m" unfolding m' using fin by (auto intro: Max_ge)
  qed
  from a b show ?thesis by blast
qed


lemma recency_of_cases:
  assumes "h \<noteq> []" and "l = Max (fst ` set h)"
  shows "(recency_of h l n \<noteq> None \<longleftrightarrow> n \<in> snd ` set h)
    \<and> (case recency_of h l n of None \<Rightarrow> True | Some k \<Rightarrow> 0 \<le> k)
    \<and> ((l, n) \<in> set h \<longrightarrow> recency_of h l n = Some 0)"
proof (cases "last_seen_of h n")
  case None
  then have "n \<notin> snd ` set h" by (simp add: last_seen_None)
  then have "(l, n) \<notin> set h" by force
  with None \<open>n \<notin> snd ` set h\<close> show ?thesis by (simp add: recency_of_def)
next
  case (Some m)
  from last_seen_Some [OF Some] have in_h: "(m, n) \<in> set h"
    and top: "\<forall>d. (d, n) \<in> set h \<longrightarrow> d \<le> m" by blast+
  have "m \<le> l" using latest_is_max [OF assms] in_h by fastforce
  moreover have "n \<in> snd ` set h" using in_h by force
  moreover have "(l, n) \<in> set h \<longrightarrow> m = l"
    using top \<open>m \<le> l\<close> by fastforce
  ultimately show ?thesis using Some by (auto simp: recency_of_def)
qed


lemma last2_two: "2 \<le> length s \<Longrightarrow> \<exists>a b. last2 s = [a, b]"
proof -
  assume "2 \<le> length s"
  then have "length (last2 s) = Suc (Suc 0)" by (simp add: last2_def)
  then show ?thesis by (auto simp: length_Suc_conv)
qed

lemma digit_val_range: "is_digit c \<Longrightarrow> 0 \<le> digit_val c \<and> digit_val c \<le> 9"
  by (auto simp: is_digit_def digit_val_def)

lemma py_int_two_bounds: "py_int [a, b] = Some n \<Longrightarrow> - 9 \<le> n \<and> n \<le> 99"
  using digit_val_range [of a] digit_val_range [of b]
  by (auto simp: py_int_def nat_literal_def split: if_splits)

lemma token_rows_bounds:
  "token_rows d ss = Inr rs \<Longrightarrow> \<forall>x \<in> set rs. fst x = d \<and> - 9 \<le> snd x \<and> snd x \<le> 99"
proof (induction ss arbitrary: rs)
  case Nil
  then show ?case by simp
next
  case (Cons s ss)
  show ?case
  proof (cases "2 \<le> length s")
    case True
    then obtain a b where ab: "last2 s = [a, b]" using last2_two by blast
    from Cons.prems True obtain n rs' where n: "py_int [a, b] = Some n"
      and rs': "token_rows d ss = Inr rs'" and rs: "rs = (d, n) # rs'"
      by (auto simp: ab split: option.splits sum.splits)
    show ?thesis using Cons.IH [OF rs'] py_int_two_bounds [OF n] by (simp add: rs)
  next
    case False
    with Cons show ?thesis by simp
  qed
qed

lemma hist_rows_bounds:
  "hist_rows df = Inr h \<Longrightarrow> \<forall>x \<in> set h. - 9 \<le> snd x \<and> snd x \<le> 99"
proof (induction df arbitrary: h rule: hist_rows.induct)
  case 1
  then show ?case by simp
next
  case (2 d p df)
  from "2.prems" obtain r rs where r: "token_rows d (py_split p) = Inr r"
    and rs: "hist_rows df = Inr rs" and h: "h = r @ rs"
    by (auto split: sum.splits)
  show ?case using token_rows_bounds [OF r] "2.IH" [OF r rs] by (auto simp: h)
qed


lemma hist_rows_short_token: "hist_rows [(19723, ''7'')] = Inr []"
  by (simp add: py_split_def is_space_def)

lemma recency_empty_table: "map recency_days empty_table = replicate 100 None"
  by (simp add: empty_table_def comp_def map_replicate_const)

text \<open>
  Claim C10, amended. For every history table from which \<open>build_features\<close> extracts a
  draw (a token of two characters or more), so that it returns a latest day:
  \<open>recency_days\<close> of a value is defined if and only if the value is among the extracted
  draws; a defined \<open>recency_days\<close> is a non-negative integer; a value drawn on the latest
  day has \<open>recency_days\<close> 0, so some value has \<open>recency_days\<close> 0 as soon as a draw of
  the latest day is not negative.
\<close>

theorem recency_days_defined:
  assumes "build_features df window_days = Inr (out, Some latest_day)"
    and "hist_rows df = Inr h" and "r \<in> set out"
  shows "(recency_days r \<noteq> None \<longleftrightarrow> num r \<in> snd ` set h)
    \<and> (case recency_days r of None \<Rightarrow> True | Some k \<Rightarrow> 0 \<le> k)
    \<and> ((latest_day, num r) \<in> set h \<longrightarrow> recency_days r = Some 0)
    \<and> ((\<exists>v. (latest_day, v) \<in> set h \<and> 0 \<le> v) \<longrightarrow> Some 0 \<in> recency_days ` set out)"
proof -
  from build_features_latest [OF assms(1,2)]
  have ne: "h \<noteq> []" and l: "latest_day = Max (fst ` set h)" by simp_all
  obtain i where i: "i < 100" and r: "r = feature_rows h latest_day ! i"
    using out_row [OF assms] by blast
  have rec: "recency_days r = recency_of h latest_day (num r)"
    by (simp add: r feature_rows_nth [OF i])
  have last: "(\<exists>v. (latest_day, v) \<in> set h \<and> 0 \<le> v) \<longrightarrow> Some 0 \<in> recency_days ` set out"
  proof
    assume "\<exists>v. (latest_day, v) \<in> set h \<and> 0 \<le> v"
    then obtain v where v: "(latest_day, v) \<in> set h" and v0: "0 \<le> v" by blast
    have "v \<le> 99" using hist_rows_bounds [OF assms(2)] v by fastforce
    then have j: "nat v < 100" using v0 by simp
    have "recency_of h latest_day v = Some 0"
      using recency_of_cases [OF ne l, of v] v by simp
    then have "recency_days (feature_rows h latest_day ! nat v) = Some 0"
      using v0 by (simp add: feature_rows_nth [OF j])
    moreover have "feature_rows h latest_day ! nat v \<in> set out"
      using row_in_out [OF assms(1,2) j] .
    ultimately show "Some 0 \<in> recency_days ` set out" by force
  qed
  show ?thesis
    using recency_of_cases [OF ne l, of "num r"] last unfolding rec by blast
qed

theorem recency_days_defined_witness:
  "build_features [(19723, ''12345 234'')] 30 =
     Inr (sort_values (feature_rows [(19723, 45), (19723, 34)] 19723), Some 19723)
   \<and> hist_rows [(19723, ''12345 234'')] = Inr [(19723, 45), (19723, 34)]
   \<and> feature_rows [(19723, 45), (19723, 34)] 19723 ! 45
       \<in> set (sort_values (feature_rows [(19723, 45), (19723, 34)] 19723))
   \<and> recency_days (feature_rows [(19723, 45), (19723, 34)] 19723 ! 45) = Some 0
   \<and> Some 0 \<in> recency_days ` set (sort_values (feature_rows [(19723, 45), (19723, 34)] 19723))"
proof -
  have m: "feature_rows [(19723, 45), (19723, 34)] 19723 ! 45
       \<in> set (sort_values (feature_rows [(19723, 45), (19723, 34)] 19723))"
    by (rule row_in_out [OF build_features_example hist_rows_example]) simp
  have n: "num (feature_rows [(19723, 45), (19723, 34)] 19723 ! 45) = 45"
    by (simp add: feature_rows_nth)
  show ?thesis
    using recency_days_defined [OF build_features_example hist_rows_example m]
      build_features_example hist_rows_example m
    unfolding n by auto
qed

lemma hist_rows_negative: "hist_rows [(19723, ''-5'')] = Inr [(19723, - 5)]"
  by (simp add: py_split_def is_space_def last2_def py_int_def nat_literal_def
      is_digit_def digit_val_def)

theorem recency_undefined_everywhere:
  "build_features [(19723, ''7'')] 30 = Inr (empty_table, None)
   \<and> map recency_days empty_table = replicate 100 None
   \<and> build_features [(19723, ''-5'')] 30 =
       Inr (sort_values (feature_rows [(19723, - 5)] 19723), Some 19723)
   \<and> Some 0 \<notin> recency_days ` set (sort_values (feature_rows [(19723, - 5)] 19723))"
proof -
  have a: "build_features [(19723, ''7'')] 30 = Inr (empty_table, None)"
    by (simp add: build_features_def hist_rows_short_token del: hist_rows.simps)
  have bf: "build_features [(19723, ''-5'')] 30 =
       Inr (sort_values (feature_rows [(19723, - 5)] 19723), Some 19723)"
    using build_features_of_draws [OF hist_rows_negative, of 30] by simp
  have "recency_days r = None"
    if mem: "r \<in> set (sort_values (feature_rows [(19723, - 5)] 19723))" for r
  proof -
    obtain i where i: "i < 100" and r: "r = feature_rows [(19723, - 5)] 19723 ! i"
      using out_row [OF bf hist_rows_negative mem] by blast
    have "int i \<notin> snd ` set [(19723::int, - 5::int)]" by simp
    then have "recency_of [(19723, - 5)] 19723 (int i) = None"
      using recency_of_cases [of "[(19723, - 5)]" 19723 "int i"] by simp
    then show ?thesis by (simp add: r feature_rows_nth [OF i])
  qed
  then have "Some 0 \<notin> recency_days ` set (sort_values (feature_rows [(19723, - 5)] 19723))"
    by auto
  with a bf recency_empty_table show ?thesis by blast
qed

lemma filter_window_le:
  "length (filter (\<lambda>(d, v). (ws::int) \<le> d \<and> v = (n::int)) h)
     \<le> length (filter (\<lambda>(d, v). ws \<le> d) h)"
proof -
  have "filter (\<lambda>(d, v). ws \<le> d \<and> v = n) h
      = filter (\<lambda>(d, v). v = n) (filter (\<lambda>(d, v). ws \<le> d) h)"
    by (simp add: case_prod_unfold conj_commute)
  then show ?thesis by (simp only: length_filter_le)
qed

lemma distinct_window_count:
  assumes "distinct h" and "\<forall>x \<in> set h. fst x \<le> (l::int)"
  shows "length (filter (\<lambda>(d, v). l - 29 \<le> d \<and> v = (n::int)) h) \<le> 30"
proof -
  let ?f = "filter (\<lambda>(d, v). l - 29 \<le> d \<and> v = n) h"
  have d: "distinct ?f" using assms(1) by simp
  have "inj_on fst (set ?f)" by (auto simp: inj_on_def)
  then have "distinct (map fst ?f)" using d by (simp add: distinct_map)
  then have "length ?f = card (set (map fst ?f))"
    by (metis distinct_card length_map)
  also have "\<dots> \<le> card {l - 29..l}"
  proof (rule card_mono)
    show "finite {l - 29..l}" by simp
    show "set (map fst ?f) \<subseteq> {l - 29..l}" using assms(2) by auto
  qed
  also have "\<dots> = 30" by simp
  finally show ?thesis .
qed

lemma freq_empty_table: "r \<in> set empty_table \<Longrightarrow> freq_30d r = 0"
  by (auto simp: empty_table_def)

text \<open>
  Claim C2, amended. For every history table and every value, \<open>freq_30d\<close> is a
  non-negative integer: the number of extracted draws of that value dated within the 30
  days that end at the latest recorded day (zero when nothing is extracted). It is at
  most the number of draws extracted in that window, and at most 30 when no value is
  drawn twice on the same day; a value drawn several times a day is counted each time.
\<close>

theorem freq_30d_bounds:
  assumes "build_features df window_days = Inr (out, latest_day)"
    and "hist_rows df = Inr h" and "r \<in> set out"
  shows "0 \<le> freq_30d r
    \<and> (case latest_day of
         None \<Rightarrow> freq_30d r = 0
       | Some l \<Rightarrow>
           freq_30d r = int (length (filter (\<lambda>(d, v). l - 29 \<le> d \<and> v = num r) h))
           \<and> freq_30d r \<le> int (length (filter (\<lambda>(d, v). l - 29 \<le> d) h)))
    \<and> (distinct h \<longrightarrow> freq_30d r \<le> 30)"
proof (cases latest_day)
  case None
  with assms(1) have "out = empty_table"
    by (cases rule: build_features_cases) simp_all
  with assms(3) have "freq_30d r = 0" by (simp add: freq_empty_table)
  with None show ?thesis by simp
next
  case (Some l)
  note bf = assms(1) [unfolded Some]
  from build_features_latest [OF bf assms(2)]
  have ne: "h \<noteq> []" and l: "l = Max (fst ` set h)" by simp_all
  obtain i where i: "i < 100" and r: "r = feature_rows h l ! i"
    using out_row [OF bf assms(2,3)] by blast
  have f: "freq_30d r = int (length (filter (\<lambda>(d, v). l - 29 \<le> d \<and> v = num r) h))"
    by (simp add: r feature_rows_nth [OF i] freq_30d_of_def)
  have w: "freq_30d r \<le> int (length (filter (\<lambda>(d, v). l - 29 \<le> d) h))"
    unfolding f using filter_window_le [of "l - 29" "num r" h] by simp
  have dd: "distinct h \<longrightarrow> freq_30d r \<le> 30"
  proof
    assume "distinct h"
    moreover have "\<forall>x \<in> set h. fst x \<le> l" using latest_is_max [OF ne l] by blast
    ultimately have "length (filter (\<lambda>(d, v). l - 29 \<le> d \<and> v = num r) h) \<le> 30"
      by (rule distinct_window_count)
    then show "freq_30d r \<le> 30" unfolding f by simp
  qed
  have "0 \<le> freq_30d r" unfolding f by simp
  with f w dd show ?thesis by (simp add: Some)
qed

theorem freq_30d_bounds_witness:
  "build_features [(19723, ''12345 234'')] 30 =
     Inr (sort_values (feature_rows [(19723, 45), (19723, 34)] 19723), Some 19723)
   \<and> hist_rows [(19723, ''12345 234'')] = Inr [(19723, 45), (19723, 34)]
   \<and> feature_rows [(19723, 45), (19723, 34)] 19723 ! 45
       \<in> set (sort_values (feature_rows [(19723, 45), (19723, 34)] 19723))
   \<and> distinct [(19723::int, 45::int), (19723, 34)]
   \<and> freq_30d (feature_rows [(19723, 45), (19723, 34)] 19723 ! 45) = 1
   \<and> freq_30d (feature_rows [(19723, 45), (19723, 34)] 19723 ! 45) \<le> 30"
proof -
  have m: "feature_rows [(19723, 45), (19723, 34)] 19723 ! 45
       \<in> set (sort_values (feature_rows [(19723, 45), (19723, 34)] 19723))"
    by (rule row_in_out [OF build_features_example hist_rows_example]) simp
  have n: "num (feature_rows [(19723, 45), (19723, 34)] 19723 ! 45) = 45"
    by (simp add: feature_rows_nth)
  have d: "distinct [(19723::int, 45::int), (19723, 34)]" by simp
  show ?thesis
    using freq_30d_bounds [OF build_features_example hist_rows_example m]
      build_features_example hist_rows_example m d
    unfolding n by simp
qed

lemma hist_rows_repeated:
  "hist_rows [(19723, concat (replicate 31 ''11 ''))] = Inr (replicate 31 (19723, 11))"
  by code_simp

theorem freq_30d_above_30:
  "build_features [(19723, concat (replicate 31 ''11 ''))] 30 =
     Inr (sort_values (feature_rows (replicate 31 (19723, 11)) 19723), Some 19723)
   \<and> 31 \<in> freq_30d ` set (sort_values (feature_rows (replicate 31 (19723, 11)) 19723))"
proof -
  have ne: "replicate 31 (19723::int, 11::int) \<noteq> []" by simp
  have mx: "Max (fst ` set (replicate 31 (19723::int, 11::int))) = 19723" by simp
  have bf: "build_features [(19723, concat (replicate 31 ''11 ''))] 30 =
     Inr (sort_values (feature_rows (replicate 31 (19723, 11)) 19723), Some 19723)"
    using build_features_of_draws [OF hist_rows_repeated ne, of 30] unfolding mx .
  have "feature_rows (replicate 31 (19723, 11)) 19723 ! 11
      \<in> set (sort_values (feature_rows (replicate 31 (19723, 11)) 19723))"
    by (rule row_in_out [OF bf hist_rows_repeated]) simp
  moreover have "freq_30d (feature_rows (replicate 31 (19723, 11)) 19723 ! 11) = 31"
    by (simp add: feature_rows_nth freq_30d_of_def)
  ultimately have
    "31 \<in> freq_30d ` set (sort_values (feature_rows (replicate 31 (19723, 11)) 19723))"
    by force
  with bf show ?thesis by blast
qed

section \<open>Standardization\<close>

lemma dropna_Some: "dropna (map Some v) = v"
  by (induction v) (simp_all add: dropna_def map_filter_simps)

lemma dropna_None: "dropna (replicate n None) = []"
  by (induction n) (simp_all add: dropna_def map_filter_simps)

lemma sum_list_shift_scale:
  fixes v :: "real list"
  shows "sum_list (map (\<lambda>x. (x - m) / d) v) = (sum_list v - real (length v) * m) / d"
  by (induction v) (simp_all add: add_divide_distrib diff_divide_distrib algebra_simps)

lemma sum_list_square_scale:
  fixes v :: "real list"
  shows "sum_list (map (\<lambda>x. ((x - m) / d)\<^sup>2) v) = sum_list (map (\<lambda>x. (x - m)\<^sup>2) v) / d\<^sup>2"
  by (induction v) (simp_all add: power_divide add_divide_distrib)

lemma standardize_stats:
  fixes v :: "real list"
  assumes n: "2 \<le> length v"
  defines "m \<equiv> sum_list v / real (length v)"
  defines "s \<equiv> sqrt (sum_list (map (\<lambda>x. (x - m)\<^sup>2) v) / real (length v - 1))"
  defines "d \<equiv> (if s = 0 then 1 else s)"
  shows "pd_mean (map Some v) = Some m"
    and "pd_std (map Some v) = Some s"
    and "or_one (pd_std (map Some v)) = Some d"
    and "0 < d"
    and "standardize (map Some v) = map Some (map (\<lambda>x. (x - m) / d) v)"
    and "pd_mean (standardize (map Some v)) = Some 0"
    and "pd_std (standardize (map Some v)) = Some (if s = 0 then 0 else 1)"
proof -
  have ne: "v \<noteq> []" using n by auto
  show pm: "pd_mean (map Some v) = Some m"
    using ne by (simp add: pd_mean_def dropna_Some m_def)
  show ps: "pd_std (map Some v) = Some s"
    using n by (simp add: pd_std_def dropna_Some Let_def s_def m_def)
  show od: "or_one (pd_std (map Some v)) = Some d"
    by (simp add: ps or_one_def d_def)
  have s0: "0 \<le> s"
    unfolding s_def by (intro real_sqrt_ge_zero divide_nonneg_nonneg sum_list_nonneg) auto
  show dpos: "0 < d" using s0 by (simp add: d_def)
  show st: "standardize (map Some v) = map Some (map (\<lambda>x. (x - m) / d) v)"
    by (simp add: standardize_def pm od fsub_def fdiv_def comp_def)
  let ?z = "map (\<lambda>x. (x - m) / d) v"
  have len: "length ?z = length v" by simp
  have sumz: "sum_list ?z = 0"
    using ne by (simp add: sum_list_shift_scale m_def)
  show "pd_mean (standardize (map Some v)) = Some 0"
    unfolding st using ne by (simp add: pd_mean_def dropna_Some sumz del: map_map)
  have sq: "sum_list (map (\<lambda>x. (x - 0)\<^sup>2) ?z) = sum_list (map (\<lambda>x. (x - m)\<^sup>2) v) / d\<^sup>2"
    by (simp add: comp_def sum_list_square_scale)
  have "pd_std (standardize (map Some v))
      = Some (sqrt (sum_list (map (\<lambda>x. (x - 0)\<^sup>2) ?z) / real (length v - 1)))"
    unfolding st using n
    by (simp add: pd_std_def dropna_Some Let_def sumz del: map_map)
  also have "sqrt (sum_list (map (\<lambda>x. (x - 0)\<^sup>2) ?z) / real (length v - 1)) = s / d"
  proof -
    define A where "A = sum_list (map (\<lambda>x. (x - m)\<^sup>2) v) / real (length v - 1)"
    have "sum_list (map (\<lambda>x. (x - 0)\<^sup>2) ?z) / real (length v - 1) = A / d\<^sup>2"
      unfolding sq A_def by simp
    then have "sqrt (sum_list (map (\<lambda>x. (x - 0)\<^sup>2) ?z) / real (length v - 1))
        = sqrt A / sqrt (d\<^sup>2)"
      by (simp only: real_sqrt_divide)
    also have "sqrt A = s" by (simp add: s_def A_def)
    also have "sqrt (d\<^sup>2) = d" using dpos by simp
    finally show ?thesis .
  qed
  also have "s / d = (if s = 0 then 0 else 1)" by (simp add: d_def)
  finally show "pd_std (standardize (map Some v)) = Some (if s = 0 then 0 else 1)" .
qed


lemma length_freq_col: "length (freq_col h l) = 100"
  by (simp add: freq_col_def range_100_def)

lemma length_recency_col: "length (recency_col h l) = 100"
  by (simp add: recency_col_def range_100_def)

lemma fw_col_Some: "fw_col h l = map Some (map real_of_int (freq_col h l))"
  by (simp add: fw_col_def)

lemma dropna_Nil: "dropna xs = [] \<longleftrightarrow> (\<forall>x \<in> set xs. x = None)"
  by (induction xs) (auto simp: dropna_def map_filter_simps split: option.splits)

lemma pd_max_None: "pd_max xs = None \<longleftrightarrow> (\<forall>x \<in> set xs. x = None)"
  by (simp add: pd_max_def dropna_Nil [symmetric] split: list.splits)

lemma rc_col_defined:
  assumes "\<exists>x \<in> set (recency_col h l). x \<noteq> None"
  obtains u where "rc_col h l = map Some u" and "length u = 100"
proof -
  from assms have "pd_max (recency_col h l) \<noteq> None" by (simp add: pd_max_None)
  then obtain M where M: "pd_max (recency_col h l) = Some M" by blast
  let ?u = "map (\<lambda>x. real_of_int (case x of None \<Rightarrow> M | Some y \<Rightarrow> y)) (recency_col h l)"
  have "rc_col h l = map Some ?u"
    by (simp add: rc_col_def M fillna_def comp_def split: option.splits cong: map_cong)
  moreover have "length ?u = 100" by (simp add: length_recency_col)
  ultimately show ?thesis using that by blast
qed

lemma rc_col_undefined:
  assumes "\<forall>x \<in> set (recency_col h l). x = None"
  shows "z_cold h l = replicate 100 None"
proof -
  have M: "pd_max (recency_col h l) = None" using assms by (simp add: pd_max_None)
  have "recency_col h l = replicate (length (recency_col h l)) None"
    using assms by (simp add: replicate_length_same)
  then have r: "recency_col h l = replicate 100 None" by (simp add: length_recency_col)
  have M': "pd_max (replicate 100 (None :: int option)) = None"
    by (simp add: pd_max_def dropna_None)
  have "rc_col h l = replicate 100 None"
    unfolding rc_col_def r by (simp add: M' fillna_def)
  then show ?thesis
    by (simp add: z_cold_def standardize_def fsub_def fdiv_def)
qed

lemma recency_col_defined_iff:
  "(\<exists>x \<in> set (recency_col h l). x \<noteq> None) \<longleftrightarrow> (\<exists>n \<in> set range_100. n \<in> snd ` set h)"
proof -
  have "recency_of h l n \<noteq> None \<longleftrightarrow> n \<in> snd ` set h" for n
    using last_seen_None [of h n] by (simp add: recency_of_def)
  then show ?thesis by (simp add: recency_col_def)
qed

lemma length_standardize: "length (standardize xs) = length xs"
  by (simp add: standardize_def)

lemma score_col_nth:
  "i < 100 \<Longrightarrow>
   score_col h l ! i =
     fadd (fmul (Some (6 / 10)) (z_hot h l ! i)) (fmul (Some (4 / 10)) (z_cold h l ! i))"
proof -
  assume i: "i < 100"
  have a: "length (z_hot h l) = 100"
    by (simp add: z_hot_def length_standardize fw_col_def length_freq_col)
  have b: "length (z_cold h l) = 100"
    by (simp add: z_cold_def length_standardize rc_col_def fillna_def length_recency_col)
  show ?thesis using i a b by (simp add: score_col_def)
qed


lemma or_one_cases: "or_one d = (if d = Some 0 then Some 1 else d)"
  by (simp add: or_one_def split: option.splits)

lemma standardize_series:
  assumes "xs = map Some v" and "length v = 100"
  shows "(\<exists>d. or_one (pd_std xs) = Some d \<and> 0 < d)
    \<and> pd_mean (standardize xs) = Some 0
    \<and> pd_std (standardize xs) = Some (if pd_std xs = Some 0 then 0 else 1)"
proof -
  have n: "2 \<le> length v" using assms(2) by simp
  from standardize_stats(2) [OF n] obtain s where s: "pd_std xs = Some s"
    unfolding assms(1) by blast
  have "pd_std (standardize xs) = Some (if s = 0 then 0 else 1)"
    using standardize_stats(7) [OF n] standardize_stats(2) [OF n] s
    unfolding assms(1) by simp
  then have a: "pd_std (standardize xs) = Some (if pd_std xs = Some 0 then 0 else 1)"
    by (simp add: s)
  have b: "pd_mean (standardize xs) = Some 0"
    using standardize_stats(6) [OF n] unfolding assms(1) .
  have c: "\<exists>d. or_one (pd_std xs) = Some d \<and> 0 < d"
    using standardize_stats(3,4) [OF n] unfolding assms(1) by blast
  from a b c show ?thesis by blast
qed

text \<open>
  Claim C3, amended. In \<open>build_features\<close> each series is standardized by subtracting
  its mean and dividing by its sample standard deviation, where a standard deviation of
  exactly zero is replaced by 1.0: the divisor is positive, never zero, and it is below 1.0
  whenever the standard deviation is. The standardized frequency series has mean zero and
  sample standard deviation one (zero when the series is constant); so has the
  standardized recency series when some value has a defined recency, and it is NaN
  throughout otherwise. The score of a value is 0.6 times its standardized frequency plus
  0.4 times its standardized recency.
\<close>

theorem standardized_scores:
  assumes "build_features df window_days = Inr (out, Some l)" and "hist_rows df = Inr h"
  shows "or_one (pd_std (fw_col h l))
       = (if pd_std (fw_col h l) = Some 0 then Some 1 else pd_std (fw_col h l))
    \<and> (\<exists>d. or_one (pd_std (fw_col h l)) = Some d \<and> 0 < d)
    \<and> pd_mean (z_hot h l) = Some 0
    \<and> pd_std (z_hot h l) = Some (if pd_std (fw_col h l) = Some 0 then 0 else 1)
    \<and> (if \<exists>n \<in> set range_100. n \<in> snd ` set h
        then (\<exists>d. or_one (pd_std (rc_col h l)) = Some d \<and> 0 < d)
          \<and> pd_mean (z_cold h l) = Some 0
          \<and> pd_std (z_cold h l) = Some (if pd_std (rc_col h l) = Some 0 then 0 else 1)
        else z_cold h l = replicate 100 None)
    \<and> (\<forall>r \<in> set out.
          score r = fadd (fmul (Some (6 / 10)) (z_hot h l ! nat (num r)))
                         (fmul (Some (4 / 10)) (z_cold h l ! nat (num r))))"
proof -
  have hot: "(\<exists>d. or_one (pd_std (fw_col h l)) = Some d \<and> 0 < d)
    \<and> pd_mean (z_hot h l) = Some 0
    \<and> pd_std (z_hot h l) = Some (if pd_std (fw_col h l) = Some 0 then 0 else 1)"
    unfolding z_hot_def
    by (rule standardize_series [OF fw_col_Some]) (simp add: length_freq_col)
  have cold: "if \<exists>n \<in> set range_100. n \<in> snd ` set h
        then (\<exists>d. or_one (pd_std (rc_col h l)) = Some d \<and> 0 < d)
          \<and> pd_mean (z_cold h l) = Some 0
          \<and> pd_std (z_cold h l) = Some (if pd_std (rc_col h l) = Some 0 then 0 else 1)
        else z_cold h l = replicate 100 None"
  proof (cases "\<exists>n \<in> set range_100. n \<in> snd ` set h")
    case True
    then have "\<exists>x \<in> set (recency_col h l). x \<noteq> None"
      by (simp only: recency_col_defined_iff)
    then obtain u where u: "rc_col h l = map Some u" "length u = 100"
      by (rule rc_col_defined)
    show ?thesis
      using True standardize_series [OF u] unfolding z_cold_def by simp
  next
    case False
    then have "\<forall>x \<in> set (recency_col h l). x = None"
      using recency_col_defined_iff [of h l] by blast
    then show ?thesis using False by (simp add: rc_col_undefined)
  qed
  have sc: "\<forall>r \<in> set out.
          score r = fadd (fmul (Some (6 / 10)) (z_hot h l ! nat (num r)))
                         (fmul (Some (4 / 10)) (z_cold h l ! nat (num r)))"
  proof
    fix r assume "r \<in> set out"
    then obtain i where i: "i < 100" and r: "r = feature_rows h l ! i"
      using out_row [OF assms] by blast
    show "score r = fadd (fmul (Some (6 / 10)) (z_hot h l ! nat (num r)))
                         (fmul (Some (4 / 10)) (z_cold h l ! nat (num r)))"
      by (simp add: r feature_rows_nth [OF i] score_col_nth [OF i])
  qed
  from hot cold sc show ?thesis by (simp only: or_one_cases)
qed


theorem standardized_scores_witness:
  "build_features [(19723, ''12345 234'')] 30 =
     Inr (sort_values (feature_rows [(19723, 45), (19723, 34)] 19723), Some 19723)
   \<and> hist_rows [(19723, ''12345 234'')] = Inr [(19723, 45), (19723, 34)]
   \<and> pd_mean (z_hot [(19723, 45), (19723, 34)] 19723) = Some 0
   \<and> pd_mean (z_cold [(19723, 45), (19723, 34)] 19723) = Some 0"
proof -
  have "45 \<in> set range_100 \<and> (45::int) \<in> snd ` set [(19723::int, 45::int), (19723, 34)]"
    by (simp add: range_100_def)
  then have ex: "\<exists>n \<in> set range_100. n \<in> snd ` set [(19723::int, 45::int), (19723, 34)]"
    by blast
  show ?thesis
    using standardized_scores [OF build_features_example hist_rows_example]
      build_features_example hist_rows_example ex
    by presburger
qed

lemma hist_rows_single: "hist_rows [(19723, ''12345'')] = Inr [(19723, 45)]"
  by (simp add: py_split_def is_space_def last2_def py_int_def nat_literal_def
      is_digit_def digit_val_def)

lemma freq_col_single:
  "freq_col [(19723, 45)] 19723 = replicate 45 0 @ [1] @ replicate 54 0"
  by code_simp

lemma sqrt_hundredth: "sqrt (1 / 100) = 1 / 10"
  by (rule real_sqrt_unique) (simp_all add: power2_eq_square)

theorem divisor_below_one:
  "build_features [(19723, ''12345'')] 30 =
     Inr (sort_values (feature_rows [(19723, 45)] 19723), Some 19723)
   \<and> or_one (pd_std (fw_col [(19723, 45)] 19723)) = Some (1 / 10)
   \<and> z_hot [(19723, 45)] 19723 ! 45 = Some (99 / 10)"
proof -
  have bf: "build_features [(19723, ''12345'')] 30 =
     Inr (sort_values (feature_rows [(19723, 45)] 19723), Some 19723)"
    using build_features_of_draws [OF hist_rows_single, of 30] by simp
  define v :: "real list" where "v = replicate 45 0 @ [1] @ replicate 54 0"
  have fw: "fw_col [(19723, 45)] 19723 = map Some v"
    by (simp add: fw_col_def freq_col_single v_def)
  have n: "2 \<le> length v" by (simp add: v_def)
  have m: "sum_list v / real (length v) = 1 / 100"
    by (simp add: v_def sum_list_replicate)
  have sq: "sum_list (map (\<lambda>x. (x - 1 / 100)\<^sup>2) v) / real (length v - 1) = 1 / 100"
    by (simp add: v_def power2_eq_square sum_list_replicate)
  have sd: "pd_std (map Some v) = Some (1 / 10)"
    using standardize_stats(2) [OF n] unfolding m sq sqrt_hundredth .
  have dv: "or_one (pd_std (map Some v)) = Some (1 / 10)"
    by (simp add: sd or_one_def)
  have len: "length v = 100" by (simp add: v_def)
  have at: "v ! 45 = 1" by (simp add: v_def nth_append)
  have "standardize (map Some v) = map Some (map (\<lambda>x. (x - 1 / 100) / (1 / 10)) v)"
    using standardize_stats(5) [OF n] unfolding m sq sqrt_hundredth by simp
  then have "standardize (map Some v) ! 45
      = map Some (map (\<lambda>x. (x - 1 / 100) / (1 / 10)) v) ! 45"
    by (simp only:)
  also have "\<dots> = Some ((v ! 45 - 1 / 100) / (1 / 10))"
    using len by simp
  also have "\<dots> = Some (99 / 10)" by (simp add: at)
  finally have z: "z_hot [(19723, 45)] 19723 ! 45 = Some (99 / 10)"
    by (simp add: z_hot_def fw)
  from bf dv z show ?thesis by (simp add: fw)
qed

section \<open>Histories that the scorer can read\<close>

lemma py_int_digits:
  assumes "list_all is_digit s" and "2 \<le> length s"
  shows "\<exists>n. py_int (last2 s) = Some n \<and> 0 \<le> n"
proof -
  obtain a b where ab: "last2 s = [a, b]" using last2_two [OF assms(2)] by blast
  have "set (last2 s) \<subseteq> set s" unfolding last2_def by (rule set_drop_subset)
  then have d: "is_digit a" "is_digit b"
    using assms(1) by (auto simp: ab list_all_iff)
  have "a \<noteq> CHR ''+''" "a \<noteq> CHR ''-''" using d(1) by (auto simp: is_digit_def)
  then have "py_int [a, b] = Some (10 * digit_val a + digit_val b)"
    using d by (simp add: py_int_def nat_literal_def)
  moreover have "0 \<le> 10 * digit_val a + digit_val b"
    using digit_val_range [OF d(1)] digit_val_range [OF d(2)] by simp
  ultimately show ?thesis by (simp add: ab)
qed

lemma token_rows_digits:
  "\<forall>s \<in> set ss. list_all is_digit s \<Longrightarrow>
   \<exists>rs. token_rows d ss = Inr rs \<and> (\<forall>x \<in> set rs. 0 \<le> snd x)"
proof (induction ss)
  case Nil
  then show ?case by simp
next
  case (Cons s ss)
  then obtain rs where rs: "token_rows d ss = Inr rs" "\<forall>x \<in> set rs. 0 \<le> snd x"
    by auto
  show ?case
  proof (cases "2 \<le> length s")
    case True
    with Cons.prems obtain n where "py_int (last2 s) = Some n" "0 \<le> n"
      using py_int_digits [of s] by auto
    with True rs show ?thesis by simp
  next
    case False
    with rs show ?thesis by simp
  qed
qed

lemma hist_rows_digits:
  "\<forall>row \<in> set df. \<forall>s \<in> set (py_split (snd row)). list_all is_digit s \<Longrightarrow>
   \<exists>h. hist_rows df = Inr h \<and> (\<forall>x \<in> set h. 0 \<le> snd x)"
proof (induction df rule: hist_rows.induct)
  case 1
  then show ?case by simp
next
  case (2 d p df)
  from "2.prems" have "\<forall>s \<in> set (py_split p). list_all is_digit s" by simp
  then obtain r where r: "token_rows d (py_split p) = Inr r" "\<forall>x \<in> set r. 0 \<le> snd x"
    using token_rows_digits by blast
  from "2.prems" have "\<forall>row \<in> set df. \<forall>s \<in> set (py_split (snd row)). list_all is_digit s"
    by simp
  then obtain h where h: "hist_rows df = Inr h" "\<forall>x \<in> set h. 0 \<le> snd x"
    using "2.IH" [OF r(1)] by blast
  show ?case using r h by auto
qed

lemma build_features_returns:
  assumes "\<forall>row \<in> set df. \<forall>s \<in> set (py_split (snd row)). list_all is_digit s"
  shows "\<exists>out latest_day. build_features df window_days = Inr (out, latest_day)"
proof -
  obtain h where "hist_rows df = Inr h" using hist_rows_digits [OF assms] by blast
  then show ?thesis
    by (cases h) (simp_all add: build_features_def Let_def)
qed

lemma split_runs_word:
  "\<forall>c \<in> set w. \<not> sep c \<Longrightarrow> split_runs sep cur (w @ rest) = split_runs sep (rev w @ cur) rest"
  by (induction w arbitrary: cur) simp_all

lemma py_split_join:
  assumes "\<forall>w \<in> set ws. w \<noteq> [] \<and> (\<forall>c \<in> set w. \<not> is_space c)"
  shows "py_split (join_sp ws) = ws"
  using assms
proof (induction ws rule: join_sp.induct)
  case 1
  then show ?case by (simp add: py_split_def)
next
  case (2 x)
  then have "split_runs is_space [] (x @ []) = split_runs is_space (rev x @ []) []"
    by (intro split_runs_word) simp
  with 2 show ?case by (simp add: py_split_def)
next
  case (3 x y zs)
  have sp: "is_space CHR '' ''" by (simp add: is_space_def)
  from 3 have x: "x \<noteq> []" "\<forall>c \<in> set x. \<not> is_space c" by simp_all
  have "split_runs is_space [] (x @ CHR '' '' # join_sp (y # zs))
      = split_runs is_space (rev x @ []) (CHR '' '' # join_sp (y # zs))"
    using x(2) by (rule split_runs_word)
  also have "\<dots> = x # split_runs is_space [] (join_sp (y # zs))"
    using x(1) sp by simp
  also have "split_runs is_space [] (join_sp (y # zs)) = y # zs"
    using 3 by (simp add: py_split_def)
  finally show ?case by (simp add: py_split_def)
qed

lemma digit_not_space: "is_digit c \<Longrightarrow> \<not> is_space c"
  by (auto simp: is_digit_def is_space_def)

lemma fetched_tokens:
  assumes "fetch_latest_from_ketqua r now = Inr (today, all_prizes, l2)"
  shows "\<forall>s \<in> set (py_split all_prizes). list_all is_digit s"
proof -
  from assms obtain status html where ap: "all_prizes = join_sp (findall_nums html)"
    by (auto simp: fetch_latest_from_ketqua_def Let_def
        split: http_reply.splits if_splits sum.splits)
  have w: "\<forall>w \<in> set (findall_nums html). 2 \<le> length w \<and> list_all is_digit w"
    by (auto simp: findall_nums_def)
  then have "\<forall>w \<in> set (findall_nums html). w \<noteq> [] \<and> (\<forall>c \<in> set w. \<not> is_space c)"
    by (auto simp: list_all_iff dest: digit_not_space)
  then have "py_split all_prizes = findall_nums html"
    unfolding ap by (rule py_split_join)
  with w show ?thesis by simp
qed

lemma frame_rows_readable:
  "\<forall>row \<in> set df. \<not> isl (to_datetime (fst row)) \<Longrightarrow>
   snd (frame_rows to_datetime df) = None
   \<and> map snd (fst (frame_rows to_datetime df)) = map snd df"
proof (induction df)
  case Nil
  then show ?case by simp
next
  case (Cons row df)
  obtain d p where row: "row = (d, p)" by (cases row)
  from Cons.prems obtain z where z: "to_datetime d = Inr z"
    by (cases "to_datetime d") (simp_all add: row)
  obtain rows bad where fr: "frame_rows to_datetime df = (rows, bad)"
    by (cases "frame_rows to_datetime df")
  from Cons.IH Cons.prems fr have "bad = None" "map snd rows = map snd df"
    by simp_all
  then show ?case by (simp add: row z fr)
qed

lemma features_of_frame_returns:
  assumes "\<forall>row \<in> set df. \<not> isl (to_datetime (fst row))"
    and "\<forall>row \<in> set df. \<forall>s \<in> set (py_split (snd row)). list_all is_digit s"
  shows "\<exists>out latest_day. features_of_frame to_datetime df window_days = Inr (out, latest_day)"
proof -
  obtain rows bad where fr: "frame_rows to_datetime df = (rows, bad)"
    by (cases "frame_rows to_datetime df")
  from frame_rows_readable [OF assms(1)] fr
  have bad: "bad = None" and cells: "map snd rows = map snd df" by simp_all
  have "\<forall>p \<in> set (map snd df). \<forall>s \<in> set (py_split p). list_all is_digit s"
    using assms(2) by simp
  then have "\<forall>p \<in> set (map snd rows). \<forall>s \<in> set (py_split p). list_all is_digit s"
    by (simp only: cells)
  then have "\<forall>row \<in> set rows. \<forall>s \<in> set (py_split (snd row)). list_all is_digit s"
    by simp
  then obtain out ld where "build_features rows window_days = Inr (out, ld)"
    using build_features_returns by blast
  then show ?thesis by (simp add: features_of_frame_def fr bad)
qed

lemma short_tokens_no_draw:
  "\<forall>s \<in> set ss. length s < 2 \<Longrightarrow> token_rows d ss = Inr []"
  by (induction ss) simp_all

lemma short_tokens_empty_table:
  assumes "\<forall>row \<in> set df. \<forall>s \<in> set (py_split (snd row)). length s < 2"
  shows "build_features df window_days = Inr (empty_table, None)"
proof -
  have "hist_rows df = Inr []"
    using assms
  proof (induction df)
    case Nil
    then show ?case by simp
  next
    case (Cons row df)
    obtain d p where row: "row = (d, p)" by (cases row)
    from Cons.prems have "token_rows d (py_split p) = Inr []"
      by (intro short_tokens_no_draw) (simp add: row)
    moreover from Cons have "hist_rows df = Inr []" by simp
    ultimately show ?case by (simp add: row)
  qed
  then show ?thesis by (simp add: build_features_def)
qed

end
